theory Spec2Isabelle
  imports Main "HOL-Library.Sublist"
begin

text \<open>
  The process manager of code-d: probing for the helper processes \<^verbatim>\<open>serve-d\<close>,
  \<^verbatim>\<open>dcd-server\<close> and \<^verbatim>\<open>dcd-client\<close> and terminating them, on Windows and on Unix.

  The class \<^verbatim>\<open>ProcessManager\<close> talks to the operating system through \<^verbatim>\<open>exec\<close> only. Its
  \<^verbatim>\<open>async\<close> methods are embedded as computations that suspend at each \<^verbatim>\<open>await\<close>; a
  computation is then run against a command runner, which is a parameter: a function from a
  command line and a state of the world to the outcome of \<^verbatim>\<open>exec\<close> and the next state. A
  run also gives the transcript of the commands, delays and log lines, in the order in
  which they happened. \<^verbatim>\<open>process.platform\<close> is a parameter of the methods that read it.
\<close>

section \<open>JavaScript strings and numbers\<close>

text \<open>
  Strings are lists of ASCII characters; the white space of \<^verbatim>\<open>trim\<close> and \<^verbatim>\<open>parseInt\<close> is
  the ASCII white space. The values of \<^verbatim>\<open>parseInt\<close> are the integers and \<^verbatim>\<open>NaN\<close>; the
  rounding of integers beyond \<open>2 ^ 53\<close> to doubles is not modelled.
\<close>

datatype jsnum = NaN | Num int

fun isNaN :: "jsnum \<Rightarrow> bool" where
  "isNaN NaN = True"
| "isNaN (Num i) = False"

abbreviation DQ :: char where
  "DQ \<equiv> CHR 0x22"

abbreviation CR :: char where
  "CR \<equiv> CHR 0x0D"

abbreviation LF :: char where
  "LF \<equiv> CHR 0x0A"

definition is_space :: "char \<Rightarrow> bool" where
  "is_space c = (c \<in> {CHR 0x09, CHR 0x0A, CHR 0x0B, CHR 0x0C, CHR 0x0D, CHR 0x20})"

definition is_digit :: "char \<Rightarrow> bool" where
  "is_digit c = (c \<in> set ''0123456789'')"

definition digit_val :: "char \<Rightarrow> nat" where
  "digit_val c = of_char c - 48"

definition digit_char :: "nat \<Rightarrow> char" where
  "digit_char d = ''0123456789'' ! d"

text \<open>\<^verbatim>\<open>String.prototype.trim\<close>.\<close>

definition trim :: "string \<Rightarrow> string" where
  "trim s = rev (dropWhile is_space (rev (dropWhile is_space s)))"

text \<open>\<^verbatim>\<open>s.split(sep)\<close>: the pieces of \<open>s\<close> between the occurrences of \<open>sep\<close>, found from
  the left; with the empty separator, the characters of \<open>s\<close>.\<close>

function split_js :: "string \<Rightarrow> string \<Rightarrow> string list" where
  "split_js [] s = map (\<lambda>c. [c]) s"
| "split_js (d # ds) [] = [[]]"
| "split_js (d # ds) (c # cs) =
     (if prefix (d # ds) (c # cs) then [] # split_js (d # ds) (drop (length ds) cs)
      else (case split_js (d # ds) cs of
              [] \<Rightarrow> [[c]]
            | p # ps \<Rightarrow> (c # p) # ps))"
  by pat_completeness auto
termination
  by (relation "measure (\<lambda>(sep, s). length s)") auto

text \<open>\<^verbatim>\<open>s.includes(sub)\<close>.\<close>

fun includes_js :: "string \<Rightarrow> string \<Rightarrow> bool" where
  "includes_js [] sub = (sub = [])"
| "includes_js (c # cs) sub = (prefix sub (c # cs) \<or> includes_js cs sub)"

text \<open>\<^verbatim>\<open>xs[i]\<close>, which is \<^verbatim>\<open>undefined\<close> (here \<open>None\<close>) out of range.\<close>

definition nth_js :: "'a list \<Rightarrow> nat \<Rightarrow> 'a option" where
  "nth_js xs i = (if i < length xs then Some (xs ! i) else None)"

text \<open>\<^verbatim>\<open>String(x)\<close> of a string that may be \<^verbatim>\<open>undefined\<close>.\<close>

definition to_string :: "string option \<Rightarrow> string" where
  "to_string x = (case x of None \<Rightarrow> ''undefined'' | Some s \<Rightarrow> s)"

text \<open>\<^verbatim>\<open>parseInt(s, 10)\<close>: leading white space is skipped, a sign is read, then the longest
  run of decimal digits; with no digit the result is \<^verbatim>\<open>NaN\<close>.\<close>

definition digits_val :: "string \<Rightarrow> nat" where
  "digits_val z = foldl (\<lambda>a c. 10 * a + digit_val c) 0 z"

definition parseInt :: "string \<Rightarrow> jsnum" where
  "parseInt s =
     (let t = dropWhile is_space s;
          neg = (case t of [] \<Rightarrow> False | c # r \<Rightarrow> c = CHR ''-'');
          u = (case t of [] \<Rightarrow> [] | c # r \<Rightarrow> if c = CHR ''-'' \<or> c = CHR ''+'' then r else t);
          z = takeWhile is_digit u
      in if z = [] then NaN
         else Num ((if neg then - 1 else 1) * int (digits_val z)))"

text \<open>The decimal numeral of a number, as a template literal prints it.\<close>

fun nat_to_string :: "nat \<Rightarrow> string" where
  "nat_to_string n =
     (if n < 10 then [digit_char n] else nat_to_string (n div 10) @ [digit_char (n mod 10)])"

declare nat_to_string.simps [simp del]

fun num_to_string :: "jsnum \<Rightarrow> string" where
  "num_to_string NaN = ''NaN''"
| "num_to_string (Num i) =
     (if i < 0 then CHR ''-'' # nat_to_string (nat (- i)) else nat_to_string (nat i))"

section \<open>Asynchronous computations\<close>

text \<open>
  The rejection of \<^verbatim>\<open>exec\<close> carries the \<^verbatim>\<open>code\<close> property of the error: the exit status
  of the command, or nothing when the error has no numeric code.
\<close>

datatype exec_error = ExecError (code: "int option")

type_synonym exec_result = "exec_error + string"

text \<open>What \<^verbatim>\<open>console.log\<close> is called with.\<close>

datatype log_msg =
    LogKilling string bool
  | LogSent string
  | LogFound nat string "string list"
  | LogStill string
  | LogStoppingAll bool
  | LogAllStopped bool bool bool

text \<open>
  An \<^verbatim>\<open>async\<close> function is a computation that suspends at each \<^verbatim>\<open>await\<close>: of an external
  command (\<open>Exec\<close>, continued with the command's outcome) or of the timer (\<open>Sleep\<close>).
  It ends fulfilled (\<open>Return\<close>) or rejected (\<open>Throw\<close>).
\<close>

datatype 'a async =
    Return 'a
  | Throw exec_error
  | Exec string "exec_result \<Rightarrow> 'a async"
  | Sleep nat "'a async"
  | Log log_msg "'a async"

primrec settle :: "'a async \<Rightarrow> (exec_error + 'a \<Rightarrow> 'b async) \<Rightarrow> 'b async" where
  "settle (Return a) k = k (Inr a)"
| "settle (Throw e) k = k (Inl e)"
| "settle (Exec c f) k = Exec c (\<lambda>r. settle (f r) k)"
| "settle (Sleep n p) k = Sleep n (settle p k)"
| "settle (Log m p) k = Log m (settle p k)"

text \<open>\<^verbatim>\<open>const x = await p; f(x)\<close>\<close>

definition bind :: "'a async \<Rightarrow> ('a \<Rightarrow> 'b async) \<Rightarrow> 'b async" where
  "bind p f = settle p (\<lambda>r. case r of Inl e \<Rightarrow> Throw e | Inr a \<Rightarrow> f a)"

text \<open>\<^verbatim>\<open>try { p } catch (e) { h(e) }\<close>\<close>

definition try_catch :: "'a async \<Rightarrow> (exec_error \<Rightarrow> 'a async) \<Rightarrow> 'a async" where
  "try_catch p h = settle p (\<lambda>r. case r of Inl e \<Rightarrow> h e | Inr a \<Rightarrow> Return a)"

text \<open>\<^verbatim>\<open>const { stdout } = await exec(cmd); k(stdout)\<close>\<close>

definition await_exec :: "string \<Rightarrow> (string \<Rightarrow> 'a async) \<Rightarrow> 'a async" where
  "await_exec cmd k = Exec cmd (\<lambda>r. case r of Inl e \<Rightarrow> Throw e | Inr stdout \<Rightarrow> k stdout)"

section \<open>ProcessManager\<close>

record ProcessInfo =
  name :: string
  pid :: jsnum
  running :: bool
  command :: "string option"

definition not_running :: "string \<Rightarrow> ProcessInfo" where
  "not_running nm = \<lparr>name = nm, pid = Num (- 1), running = False, command = None\<rparr>"

text \<open>The command lines, as the template literals build them.\<close>

definition tasklist_cmd :: "string \<Rightarrow> string" where
  "tasklist_cmd nm =
     ''tasklist /FI '' @ [DQ] @ ''IMAGENAME eq '' @ nm @ ''.exe'' @ [DQ] @ '' /FO CSV /NH''"

definition pgrep_f :: "string \<Rightarrow> string" where
  "pgrep_f nm = ''pgrep -f '' @ [DQ] @ nm @ [DQ]"

definition pgrep_x :: "string \<Rightarrow> string" where
  "pgrep_x nm = ''pgrep -x '' @ [DQ] @ nm @ [DQ]"

definition pgrep_path :: "string \<Rightarrow> string" where
  "pgrep_path nm = ''pgrep -f '' @ [DQ] @ ''/.*'' @ nm @ [DQ]"

definition taskkill_cmd :: "string \<Rightarrow> string \<Rightarrow> string" where
  "taskkill_cmd flag nm = ''taskkill '' @ flag @ '' /IM '' @ [DQ] @ nm @ ''.exe'' @ [DQ]"

definition broad_kill_cmd :: "string \<Rightarrow> string \<Rightarrow> string" where
  "broad_kill_cmd signal nm =
     ''killall '' @ signal @ '' '' @ nm @ '' 2>/dev/null || pkill '' @ signal @ '' -f '' @ nm
       @ '' 2>/dev/null''"

definition kill_cmd :: "string \<Rightarrow> string \<Rightarrow> string" where
  "kill_cmd signal p = ''kill '' @ signal @ '' '' @ p"

text \<open>\<^verbatim>\<open>checkProcessWindows\<close>\<close>

definition checkProcessWindows :: "string \<Rightarrow> ProcessInfo async" where
  "checkProcessWindows nm =
     try_catch
       (await_exec (tasklist_cmd nm)
          (\<lambda>stdout.
             let lines = split_js [CR, LF] (trim stdout) in
             if length lines > 0 \<and> includes_js (hd lines) nm then
               let parts = split_js '','' (filter (\<lambda>c. c \<noteq> DQ) (hd lines));
                   p = parseInt (to_string (nth_js parts 1))
               in Return \<lparr>name = nm, pid = p, running = True, command = nth_js parts 0\<rparr>
             else Return (not_running nm)))
       (\<lambda>_. Return (not_running nm))"

text \<open>The body of the \<^verbatim>\<open>for\<close> loop of \<^verbatim>\<open>checkProcessUnix\<close> over the patterns: the inner
  \<^verbatim>\<open>try\<close> either returns from the function (\<open>Some\<close>) or falls through to the next pattern.\<close>

fun try_patterns :: "string \<Rightarrow> string list \<Rightarrow> ProcessInfo async" where
  "try_patterns nm [] = Return (not_running nm)"
| "try_patterns nm (pattern # patterns) =
     bind
       (try_catch
          (await_exec pattern
             (\<lambda>stdout.
                let pids = filter (\<lambda>line. length line > 0 \<and> \<not> isNaN (parseInt line))
                             (split_js [LF] (trim stdout))
                in if length pids > 0 then
                     Return (Some \<lparr>name = nm, pid = parseInt (hd pids), running = True,
                                   command = None\<rparr>)
                   else Return None))
          (\<lambda>_. Return None))
       (\<lambda>returned. case returned of
            Some info \<Rightarrow> Return info
          | None \<Rightarrow> try_patterns nm patterns)"

text \<open>\<^verbatim>\<open>checkProcessUnix\<close>\<close>

definition patterns_of :: "string \<Rightarrow> string list" where
  "patterns_of nm =
     [pgrep_f nm, pgrep_x nm, pgrep_path nm]"

definition checkProcessUnix :: "string \<Rightarrow> ProcessInfo async" where
  "checkProcessUnix nm =
     try_catch (try_patterns nm (patterns_of nm)) (\<lambda>_. Return (not_running nm))"

text \<open>\<^verbatim>\<open>checkProcess\<close>; \<open>platform\<close> is \<^verbatim>\<open>process.platform\<close>.\<close>

definition checkProcess :: "string \<Rightarrow> string \<Rightarrow> ProcessInfo async" where
  "checkProcess platform nm =
     (if platform = ''win32'' then checkProcessWindows nm else checkProcessUnix nm)"

text \<open>\<^verbatim>\<open>killProcessWindows\<close>\<close>

definition killProcessWindows :: "string \<Rightarrow> bool \<Rightarrow> bool async" where
  "killProcessWindows nm force =
     try_catch
       (let flag = (if force then ''/F'' else []) in
        await_exec (taskkill_cmd flag nm)
          (\<lambda>_. Return True))
       (\<lambda>error. if code error = Some 128 then Return False else Throw error)"

text \<open>The \<^verbatim>\<open>catch\<close> clause of \<^verbatim>\<open>killProcessUnix\<close>, entered while the variable
  \<^verbatim>\<open>killed\<close> has the value \<open>killed\<close>.\<close>

definition catch_clause :: "bool \<Rightarrow> exec_error \<Rightarrow> bool async" where
  "catch_clause killed error = (if code error = Some 1 then Return killed else Throw error)"

text \<open>An \<^verbatim>\<open>await p\<close> inside the outer \<^verbatim>\<open>try\<close> block of \<^verbatim>\<open>killProcessUnix\<close>, at a point
  where \<^verbatim>\<open>killed\<close> has the value \<open>killed\<close>: a rejection of \<open>p\<close> enters the \<^verbatim>\<open>catch\<close>
  clause, a value continues the block.\<close>

definition in_try :: "bool \<Rightarrow> 'a async \<Rightarrow> ('a \<Rightarrow> bool async) \<Rightarrow> bool async" where
  "in_try killed p k = settle p (\<lambda>r. case r of Inl e \<Rightarrow> catch_clause killed e | Inr x \<Rightarrow> k x)"

text \<open>The \<^verbatim>\<open>for\<close> loop over the pids; the result is the value of \<^verbatim>\<open>killed\<close> after it.\<close>

fun kill_pids :: "string \<Rightarrow> string list \<Rightarrow> bool \<Rightarrow> bool async" where
  "kill_pids signal [] killed = Return killed"
| "kill_pids signal (p # pids) killed =
     bind
       (try_catch (await_exec (kill_cmd signal p) (\<lambda>_. Return True))
          (\<lambda>_. Return killed))
       (\<lambda>killed'. kill_pids signal pids killed')"

text \<open>\<^verbatim>\<open>killProcessUnix\<close>. The forced call is returned without \<^verbatim>\<open>await\<close>, so its
  rejection does not enter the \<^verbatim>\<open>catch\<close> clause of the caller.\<close>

function killProcessUnix :: "string \<Rightarrow> string \<Rightarrow> bool \<Rightarrow> bool async" where
  "killProcessUnix platform nm force =
     Log (LogKilling nm force)
       (let signal = (if force then ''-9'' else ''-15'') in
        bind
          (try_catch
             (await_exec (broad_kill_cmd signal nm) (\<lambda>_. Log (LogSent nm) (Return True)))
             (\<lambda>_. Return False))
          (\<lambda>killed1.
             in_try killed1 (await_exec (pgrep_f nm) Return)
               (\<lambda>stdout.
                  let pids = filter (\<lambda>line. length line > 0) (split_js [LF] (trim stdout)) in
                  bind
                    (if length pids > 0 then
                       Log (LogFound (length pids) nm pids) (kill_pids signal pids killed1)
                     else Return killed1)
                    (\<lambda>killed2.
                       if \<not> force then
                         in_try killed2 (Sleep 1000 (Return ()))
                           (\<lambda>_. in_try killed2 (checkProcess platform nm)
                              (\<lambda>stillRunning.
                                 if running stillRunning then
                                   Log (LogStill nm) (killProcessUnix platform nm True)
                                 else Return killed2))
                       else Return killed2))))"
  by pat_completeness auto
termination
  by (relation "measure (\<lambda>(platform, nm, force). if force then 0 else 1)") auto

declare killProcessUnix.simps [simp del]

text \<open>\<^verbatim>\<open>killProcess\<close>\<close>

definition killProcess :: "string \<Rightarrow> string \<Rightarrow> bool \<Rightarrow> bool async" where
  "killProcess platform nm force =
     (if platform = ''win32'' then killProcessWindows nm force
      else killProcessUnix platform nm force)"

text \<open>\<^verbatim>\<open>formatProcessStatus\<close>\<close>

definition formatProcessStatus :: "ProcessInfo \<Rightarrow> string" where
  "formatProcessStatus info =
     (let icon = (if running info then ''$(check)'' else ''$(x)'');
          status = (if running info then ''running'' else ''stoped'');
          pidInfo = (if running info then '' (PID: '' @ num_to_string (pid info) @ '')'' else [])
      in icon @ '' '' @ name info @ '': '' @ status @ pidInfo)"

section \<open>Running a computation\<close>

text \<open>
  The operating system: \<open>os_exec\<close> runs a command in a state of the world and gives the
  outcome of \<^verbatim>\<open>exec\<close> with the next state, \<open>os_sleep\<close> is the world after a delay in
  milliseconds. A run gives the outcome, the last state of the world and the transcript of
  what the computation did, in order.
\<close>

record 'w os =
  os_exec :: "string \<Rightarrow> 'w \<Rightarrow> exec_result \<times> 'w"
  os_sleep :: "nat \<Rightarrow> 'w \<Rightarrow> 'w"

datatype event = EvExec string exec_result | EvSleep nat | EvLog log_msg

primrec run :: "'a async \<Rightarrow> 'w os \<Rightarrow> 'w \<Rightarrow> (exec_error + 'a) \<times> 'w \<times> event list" where
  "run (Return a) sys w = (Inr a, w, [])"
| "run (Throw e) sys w = (Inl e, w, [])"
| "run (Exec c f) sys w =
     (case os_exec sys c w of
        (r, w1) \<Rightarrow> (case run (f r) sys w1 of (out, w2, tr) \<Rightarrow> (out, w2, EvExec c r # tr)))"
| "run (Sleep n p) sys w =
     (case run p sys (os_sleep sys n w) of (out, w2, tr) \<Rightarrow> (out, w2, EvSleep n # tr))"
| "run (Log m p) sys w =
     (case run p sys w of (out, w2, tr) \<Rightarrow> (out, w2, EvLog m # tr))"

section \<open>Promise.all\<close>

text \<open>
  The computations given to \<^verbatim>\<open>Promise.all\<close> are all pending at once, and the event loop
  resumes one of them at a time. One turn of a computation is what it logs and then the
  command or the timer it awaits, with its outcome; a settled computation stays as it is.
  A command acts on the world at once, when its turn comes: commands of different
  computations interleave, they do not overlap.
\<close>

primrec step :: "'a async \<Rightarrow> 'w os \<Rightarrow> 'w \<Rightarrow> 'a async \<times> 'w \<times> event list" where
  "step (Return a) sys w = (Return a, w, [])"
| "step (Throw e) sys w = (Throw e, w, [])"
| "step (Exec c f) sys w = (case os_exec sys c w of (r, w1) \<Rightarrow> (f r, w1, [EvExec c r]))"
| "step (Sleep n p) sys w = (p, os_sleep sys n w, [EvSleep n])"
| "step (Log m p) sys w = (case step p sys w of (p', w1, tr) \<Rightarrow> (p', w1, EvLog m # tr))"

text \<open>The first rejected computation of a list, and the values of a list of fulfilled
  computations.\<close>

fun rejection :: "'a async list \<Rightarrow> exec_error option" where
  "rejection [] = None"
| "rejection (Throw e # ps) = Some e"
| "rejection (p # ps) = rejection ps"

fun fulfilled :: "'a async list \<Rightarrow> 'a list option" where
  "fulfilled [] = Some []"
| "fulfilled (Return a # ps) = map_option ((#) a) (fulfilled ps)"
| "fulfilled (p # ps) = None"

text \<open>The pending computations run to their end one after the other.\<close>

fun in_turn :: "'a async list \<Rightarrow> 'w os \<Rightarrow> 'w \<Rightarrow> (exec_error + 'a list) \<times> 'w \<times> event list" where
  "in_turn [] sys w = (Inr [], w, [])"
| "in_turn (p # ps) sys w =
     (case run p sys w of
        (Inl e, w1, tr1) \<Rightarrow> (Inl e, w1, tr1)
      | (Inr a, w1, tr1) \<Rightarrow>
          (case in_turn ps sys w1 of
             (Inl e, w2, tr2) \<Rightarrow> (Inl e, w2, tr1 @ tr2)
           | (Inr as, w2, tr2) \<Rightarrow> (Inr (a # as), w2, tr1 @ tr2)))"

text \<open>
  \<^verbatim>\<open>await Promise.all(ps)\<close> under a schedule: the list of the indices of the computations
  that get the next turns (taken modulo the number of computations). It is rejected as soon
  as one computation is rejected, with that rejection, and fulfilled with the values of
  all, in the order of the list, when all are fulfilled. When the schedule is used up, the
  computations run to their end in turn.
\<close>

fun promise_all ::
  "nat list \<Rightarrow> 'a async list \<Rightarrow> 'w os \<Rightarrow> 'w \<Rightarrow> (exec_error + 'a list) \<times> 'w \<times> event list" where
  "promise_all sched ps sys w =
     (case rejection ps of
        Some e \<Rightarrow> (Inl e, w, [])
      | None \<Rightarrow>
          (case fulfilled ps of
             Some vs \<Rightarrow> (Inr vs, w, [])
           | None \<Rightarrow>
               (case sched of
                  [] \<Rightarrow> in_turn ps sys w
                | i # sched' \<Rightarrow>
                    (case step (ps ! (i mod length ps)) sys w of
                       (p', w1, tr1) \<Rightarrow>
                         (case promise_all sched' (ps[i mod length ps := p']) sys w1 of
                            (out, w2, tr2) \<Rightarrow> (out, w2, tr1 @ tr2))))))"

declare promise_all.simps [simp del]

text \<open>The results for the three managed processes.\<close>

record 'a managed =
  served :: 'a
  dcdServer :: 'a
  dcdClient :: 'a

text \<open>\<^verbatim>\<open>checkAllProcesses\<close>, under a schedule of the three probes.\<close>

definition checkAllProcesses ::
  "string \<Rightarrow> nat list \<Rightarrow> 'w os \<Rightarrow> 'w \<Rightarrow> (exec_error + ProcessInfo managed) \<times> 'w \<times> event list"
  where
  "checkAllProcesses platform sched sys w =
     (case promise_all sched
             [checkProcess platform ''serve-d'', checkProcess platform ''dcd-server'',
              checkProcess platform ''dcd-client''] sys w of
        (Inl e, w1, tr) \<Rightarrow> (Inl e, w1, tr)
      | (Inr vs, w1, tr) \<Rightarrow>
          (Inr \<lparr>served = vs ! 0, dcdServer = vs ! 1, dcdClient = vs ! 2\<rparr>, w1, tr))"

text \<open>\<^verbatim>\<open>killAllProcesses\<close>, under a schedule of the three terminations.\<close>

definition killAllProcesses ::
  "string \<Rightarrow> bool \<Rightarrow> nat list \<Rightarrow> 'w os \<Rightarrow> 'w \<Rightarrow> (exec_error + bool managed) \<times> 'w \<times> event list"
  where
  "killAllProcesses platform force sched sys w =
     (case promise_all sched
             [killProcess platform ''serve-d'' force, killProcess platform ''dcd-server'' force,
              killProcess platform ''dcd-client'' force] sys w of
        (Inl e, w1, tr) \<Rightarrow> (Inl e, w1, EvLog (LogStoppingAll force) # tr)
      | (Inr vs, w1, tr) \<Rightarrow>
          (Inr \<lparr>served = vs ! 0, dcdServer = vs ! 1, dcdClient = vs ! 2\<rparr>, w1,
           EvLog (LogStoppingAll force) # tr
             @ [EvLog (LogAllStopped (vs ! 0) (vs ! 1) (vs ! 2))]))"

section \<open>Notions used in the statements\<close>

text \<open>The pids that one matching strategy of the probe yields: the non-empty lines of the
  command's output that parse as a number; none when the command fails.\<close>

definition strategy_pids :: "exec_result \<Rightarrow> string list" where
  "strategy_pids r =
     (case r of
        Inl e \<Rightarrow> []
      | Inr stdout \<Rightarrow>
          filter (\<lambda>line. length line > 0 \<and> \<not> isNaN (parseInt line))
            (split_js [LF] (trim stdout)))"

text \<open>A scripted command runner: the state of the world is the list of the outcomes that
  the next commands will have, whatever the commands are.\<close>

definition scripted :: "exec_result list os" where
  "scripted =
     \<lparr>os_exec = (\<lambda>c w. case w of [] \<Rightarrow> (Inl (ExecError None), []) | r # rs \<Rightarrow> (r, rs)),
      os_sleep = (\<lambda>n w. w)\<rparr>"

definition two_pids :: string where
  "two_pids = ''4242'' @ [LF] @ ''4250'' @ [LF]"

text \<open>The first record of a process listing, and the fields of a record.\<close>

definition first_record :: "string \<Rightarrow> string" where
  "first_record stdout = hd (split_js [CR, LF] (trim stdout))"

definition record_fields :: "string \<Rightarrow> string list" where
  "record_fields line = split_js '','' (filter (\<lambda>c. c \<noteq> DQ) line)"

text \<open>The pid that an output of the probe's command reports for the name, if it reports
  one: on Windows the second field of the first record, when that record contains the name;
  elsewhere the first line that parses as a number.\<close>

definition reported_pid :: "string \<Rightarrow> string \<Rightarrow> string \<Rightarrow> jsnum option" where
  "reported_pid platform nm stdout =
     (if platform = ''win32'' then
        (if includes_js (first_record stdout) nm then
           Some (parseInt (to_string (nth_js (record_fields (first_record stdout)) 1)))
         else None)
      else (case strategy_pids (Inr stdout) of [] \<Rightarrow> None | p # ps \<Rightarrow> Some (parseInt p)))"

text \<open>The listing of the example: one record,
  \<^verbatim>\<open>"proc.exe","4242","Services","0","12,345 K"\<close>.\<close>

definition csv_record :: string where
  "csv_record =
     [DQ] @ ''proc.exe'' @ [DQ] @ '','' @ [DQ] @ ''4242'' @ [DQ] @ '','' @ [DQ] @ ''Services''
       @ [DQ] @ '','' @ [DQ] @ ''0'' @ [DQ] @ '','' @ [DQ] @ ''12,345 K'' @ [DQ] @ [CR, LF]"

text \<open>The pids that the enumeration of the targeted phase lists: the non-empty lines of
  the output of \<^verbatim>\<open>pgrep -f\<close>.\<close>

definition pid_lines :: "string \<Rightarrow> string list" where
  "pid_lines stdout = filter (\<lambda>line. length line > 0) (split_js [LF] (trim stdout))"

text \<open>Sending the signal to each pid in turn, whatever the outcome for the pids before:
  the commands run with their outcomes, and the state of the world after them.\<close>

fun kill_each :: "'w os \<Rightarrow> string \<Rightarrow> string list \<Rightarrow> 'w \<Rightarrow> event list \<times> 'w" where
  "kill_each sys signal [] w = ([], w)"
| "kill_each sys signal (p # pids) w =
     (case os_exec sys (kill_cmd signal p) w of
        (r, w1) \<Rightarrow>
          (case kill_each sys signal pids w1 of
             (tr, w2) \<Rightarrow> (EvExec (kill_cmd signal p) r # tr, w2)))"

text \<open>A command of the transcript that succeeded.\<close>

fun ev_ok :: "event \<Rightarrow> bool" where
  "ev_ok (EvExec c (Inr stdout)) = True"
| "ev_ok ev = False"

text \<open>The commands of a transcript, in order.\<close>

fun commands :: "event list \<Rightarrow> string list" where
  "commands [] = []"
| "commands (EvExec c r # tr) = c # commands tr"
| "commands (ev # tr) = commands tr"


text \<open>The signal that the force flag selects.\<close>

definition signal_of :: "bool \<Rightarrow> string" where
  "signal_of force = (if force then ''-9'' else ''-15'')"

text \<open>The transcript of the two phases of one attempt: the invocation and the broad kill
  with outcome \<open>r1\<close>, then the enumeration with outcome \<open>r2\<close> and the signals \<open>tr3\<close> sent
  to the pids it listed.\<close>

definition phase_events ::
  "string \<Rightarrow> bool \<Rightarrow> exec_result \<Rightarrow> exec_result \<Rightarrow> event list \<Rightarrow> event list" where
  "phase_events nm force r1 r2 tr3 =
     [EvLog (LogKilling nm force), EvExec (broad_kill_cmd (signal_of force) nm) r1]
     @ (if isl r1 then [] else [EvLog (LogSent nm)])
     @ [EvExec (pgrep_f nm) r2]
     @ (case r2 of
          Inl e \<Rightarrow> []
        | Inr stdout \<Rightarrow>
            if pid_lines stdout = [] then []
            else [EvLog (LogFound (length (pid_lines stdout)) nm (pid_lines stdout))])
     @ tr3"

text \<open>What \<^verbatim>\<open>tasklist\<close> prints, with exit status 0, when no process has the
  image name.\<close>

definition no_tasks_message :: string where
  "no_tasks_message = ''INFO: No tasks are running which match the specified criteria.''"

text \<open>Scripts for the scripted command runner. In the first, a graceful termination
  signals pid 42, the probe after the delay still finds it, and the forced retry signals it
  again. In the second the process has gone when the forced retry starts: its broad kill
  and its enumeration both exit with status 1.\<close>

definition no_match :: exec_result where
  "no_match = Inl (ExecError (Some 1))"

definition escalating_script :: "exec_result list" where
  "escalating_script = [Inr [], Inr ''42'', Inr [], Inr ''42'', Inr [], no_match]"

definition late_exit_script :: "exec_result list" where
  "late_exit_script = [Inr [], Inr ''42'', Inr [], Inr ''42'', no_match, no_match]"

text \<open>Every outcome that a computation can have under the command runner \<open>sys\<close>, from
  any state of the world, satisfies \<open>R\<close>; and: it is never rejected, and every value it can
  be fulfilled with satisfies \<open>P\<close>.\<close>

primrec reach :: "'w os \<Rightarrow> (exec_error + 'a \<Rightarrow> bool) \<Rightarrow> 'a async \<Rightarrow> bool" where
  "reach sys R (Return a) = R (Inr a)"
| "reach sys R (Throw e) = R (Inl e)"
| "reach sys R (Exec c f) = (\<forall>w. reach sys R (f (fst (os_exec sys c w))))"
| "reach sys R (Sleep n p) = reach sys R p"
| "reach sys R (Log m p) = reach sys R p"

definition sure :: "'w os \<Rightarrow> ('a \<Rightarrow> bool) \<Rightarrow> 'a async \<Rightarrow> bool" where
  "sure sys P p = reach sys (\<lambda>r. case r of Inl e \<Rightarrow> False | Inr a \<Rightarrow> P a) p"

text \<open>The command \<open>c\<close>, when it fails under \<open>sys\<close>, fails with the exit code \<open>n\<close>.\<close>

definition only_exit :: "'w os \<Rightarrow> string \<Rightarrow> int \<Rightarrow> bool" where
  "only_exit sys c n = (\<forall>w e. fst (os_exec sys c w) = Inl e \<longrightarrow> code e = Some n)"

text \<open>No termination of a managed process can fail fatally under \<open>sys\<close>: the command whose
  failure \<^verbatim>\<open>killProcess\<close> raises, \<^verbatim>\<open>taskkill\<close> on Windows and the enumeration \<^verbatim>\<open>pgrep -f\<close>
  elsewhere, fails only with the exit code that means that no process was found.\<close>

definition managed_names :: "string list" where
  "managed_names = [''serve-d'', ''dcd-server'', ''dcd-client'']"

definition no_fatal_failure :: "'w os \<Rightarrow> string \<Rightarrow> bool \<Rightarrow> bool" where
  "no_fatal_failure sys platform force =
     list_all
       (\<lambda>nm. if platform = ''win32'' then
               only_exit sys (taskkill_cmd (if force then ''/F'' else []) nm) 128
             else only_exit sys (pgrep_f nm) 1)
       managed_names"

text \<open>A command runner under which every command succeeds with no output.\<close>

definition all_succeed :: "unit os" where
  "all_succeed = \<lparr>os_exec = (\<lambda>c w. (Inr [], w)), os_sleep = (\<lambda>n w. w)\<rparr>"

section \<open>Runs of the combinators\<close>

lemma run_settle:
  "run (settle p k) sys w =
     (case run p sys w of (out, w1, tr1) \<Rightarrow>
        (case run (k out) sys w1 of (out2, w2, tr2) \<Rightarrow> (out2, w2, tr1 @ tr2)))"
  by (induction p arbitrary: w) (auto split: prod.splits)

lemma run_bind:
  "run (bind p f) sys w =
     (case run p sys w of
        (Inl e, w1, tr1) \<Rightarrow> (Inl e, w1, tr1)
      | (Inr a, w1, tr1) \<Rightarrow>
          (case run (f a) sys w1 of (out2, w2, tr2) \<Rightarrow> (out2, w2, tr1 @ tr2)))"
  by (simp add: bind_def run_settle split: prod.splits sum.splits)

lemma run_try_catch:
  "run (try_catch p h) sys w =
     (case run p sys w of
        (Inl e, w1, tr1) \<Rightarrow>
          (case run (h e) sys w1 of (out2, w2, tr2) \<Rightarrow> (out2, w2, tr1 @ tr2))
      | (Inr a, w1, tr1) \<Rightarrow> (Inr a, w1, tr1))"
  by (simp add: try_catch_def run_settle split: prod.splits sum.splits)

lemma run_in_try:
  "run (in_try killed p k) sys w =
     (case run p sys w of
        (Inl e, w1, tr1) \<Rightarrow> ((if code e = Some 1 then Inr killed else Inl e), w1, tr1)
      | (Inr a, w1, tr1) \<Rightarrow>
          (case run (k a) sys w1 of (out2, w2, tr2) \<Rightarrow> (out2, w2, tr1 @ tr2)))"
  by (simp add: in_try_def catch_clause_def run_settle split: prod.splits sum.splits)

lemma run_await_exec:
  "run (await_exec c k) sys w =
     (case os_exec sys c w of
        (Inl e, w1) \<Rightarrow> (Inl e, w1, [EvExec c (Inl e)])
      | (Inr stdout, w1) \<Rightarrow>
          (case run (k stdout) sys w1 of
             (out, w2, tr) \<Rightarrow> (out, w2, EvExec c (Inr stdout) # tr)))"
  by (simp add: await_exec_def split: prod.splits sum.splits)

section \<open>Terminating a process on Windows\<close>

text \<open>
  C6. On Windows, \<^verbatim>\<open>killProcess(name, force)\<close> runs one command, \<^verbatim>\<open>taskkill\<close> on the image
  \<^verbatim>\<open>name.exe\<close>, with the flag \<^verbatim>\<open>/F\<close> exactly when \<open>force\<close> holds. It returns \<open>true\<close> when
  the command succeeds and \<open>false\<close> when it fails with exit code 128 (process not found);
  any other failure of the command is raised to the caller.
\<close>

theorem killProcessWindows_single_command:
  "run (killProcess ''win32'' nm force) sys w =
     (case os_exec sys (taskkill_cmd (if force then ''/F'' else []) nm) w of
        (r, w1) \<Rightarrow>
          ((case r of
              Inl e \<Rightarrow> if code e = Some 128 then Inr False else Inl e
            | Inr stdout \<Rightarrow> Inr True),
           w1, [EvExec (taskkill_cmd (if force then ''/F'' else []) nm) r]))
   \<and> taskkill_cmd ''/F'' nm = ''taskkill /F /IM '' @ [DQ] @ nm @ ''.exe'' @ [DQ]
   \<and> taskkill_cmd [] nm = ''taskkill  /IM '' @ [DQ] @ nm @ ''.exe'' @ [DQ]"
  by (simp add: killProcess_def killProcessWindows_def run_try_catch run_await_exec
      taskkill_cmd_def split: prod.splits sum.splits)

section \<open>Probing on Unix\<close>

lemma run_try_patterns_Cons:
  "run (try_patterns nm (c # cs)) sys w =
     (case os_exec sys c w of
        (r, w1) \<Rightarrow>
          (case strategy_pids r of
             [] \<Rightarrow>
               (case run (try_patterns nm cs) sys w1 of
                  (out, w2, tr) \<Rightarrow> (out, w2, EvExec c r # tr))
           | p # ps \<Rightarrow>
               (Inr \<lparr>name = nm, pid = parseInt p, running = True, command = None\<rparr>, w1,
                [EvExec c r])))"
  by (simp add: run_bind run_try_catch run_await_exec strategy_pids_def Let_def
      split: prod.splits sum.splits list.splits)

lemma run_try_patterns_Nil:
  "run (try_patterns nm []) sys w = (Inr (not_running nm), w, [])"
  by simp

declare try_patterns.simps [simp del]

lemma try_patterns_never_rejects:
  "\<exists>info w1 tr. run (try_patterns nm cs) sys w = (Inr info, w1, tr)"
proof (induction cs arbitrary: w)
  case Nil
  show ?case by (simp add: run_try_patterns_Nil)
next
  case (Cons c cs)
  obtain r w1 where e: "os_exec sys c w = (r, w1)" by (cases "os_exec sys c w")
  from Cons[of w1] obtain info w2 tr where
    "run (try_patterns nm cs) sys w1 = (Inr info, w2, tr)" by blast
  with e show ?case
    by (cases "strategy_pids r") (simp_all add: run_try_patterns_Cons)
qed

lemma run_checkProcessUnix:
  "run (checkProcessUnix nm) sys w = run (try_patterns nm (patterns_of nm)) sys w"
proof -
  obtain info w1 tr where "run (try_patterns nm (patterns_of nm)) sys w = (Inr info, w1, tr)"
    using try_patterns_never_rejects [of nm "patterns_of nm" sys w] by blast
  then show ?thesis by (simp add: checkProcessUnix_def run_try_catch)
qed



section \<open>Probing on Windows\<close>

lemma split_js_nonempty: "split_js (d # ds) s \<noteq> []"
  by (induction "d # ds" s rule: split_js.induct) (auto split: list.splits)

lemma run_checkProcessWindows:
  assumes "os_exec sys (tasklist_cmd nm) w = (r, w1)"
  shows "run (checkProcessWindows nm) sys w =
     (Inr (case r of
             Inl e \<Rightarrow> not_running nm
           | Inr stdout \<Rightarrow>
               if includes_js (first_record stdout) nm then
                 \<lparr>name = nm,
                  pid = parseInt (to_string (nth_js (record_fields (first_record stdout)) 1)),
                  running = True,
                  command = Some (hd (record_fields (first_record stdout)))\<rparr>
               else not_running nm),
      w1, [EvExec (tasklist_cmd nm) r])"
proof -
  have hd0: "nth_js (record_fields l) 0 = Some (hd (record_fields l))" for l
    using split_js_nonempty [of "CHR '',''" "[]" "filter (\<lambda>c. c \<noteq> DQ) l"]
    by (simp add: nth_js_def record_fields_def hd_conv_nth)
  have ne: "split_js [CR, LF] s \<noteq> []" for s
    by (rule split_js_nonempty)
  show ?thesis
    using assms hd0 ne
    by (simp add: checkProcessWindows_def run_try_catch run_await_exec Let_def
        first_record_def [symmetric] record_fields_def [symmetric]
        split: sum.splits)
qed

text \<open>
  C8, as the code has it. On Windows the probe runs the process listing and looks at its
  first record. When
  that record contains the name, the result is running, with the second comma-separated
  field of the record (quotes removed) parsed as the pid and the first field as the
  command. When the listing fails the result is not running, and so it is when the listing
  is empty and the name is not: the empty record contains the empty name. For the record
  \<^verbatim>\<open>"proc.exe","4242","Services",...\<close> and the name \<^verbatim>\<open>proc\<close> the result is running, with
  pid 4242.
\<close>

theorem checkProcessWindows_first_record:
  assumes "os_exec sys (tasklist_cmd nm) w = (r, w1)"
  shows "run (checkProcess ''win32'' nm) sys w =
     (Inr (case r of
             Inl e \<Rightarrow> not_running nm
           | Inr stdout \<Rightarrow>
               if includes_js (first_record stdout) nm then
                 \<lparr>name = nm,
                  pid = parseInt (to_string (nth_js (record_fields (first_record stdout)) 1)),
                  running = True,
                  command = Some (hd (record_fields (first_record stdout)))\<rparr>
               else not_running nm),
      w1, [EvExec (tasklist_cmd nm) r])
   \<and> (nm \<noteq> [] \<and> (\<exists>stdout. r = Inr stdout \<and> trim stdout = []) \<longrightarrow>
        run (checkProcess ''win32'' nm) sys w =
          (Inr (not_running nm), w1, [EvExec (tasklist_cmd nm) r]))"
proof -
  have "\<not> includes_js (first_record stdout) nm" if "nm \<noteq> []" "trim stdout = []" for stdout
    using that by (simp add: first_record_def)
  then show ?thesis
    using assms by (auto simp: checkProcess_def run_checkProcessWindows)
qed

theorem checkProcessWindows_first_record_witness:
  "run (checkProcess ''win32'' ''proc'') scripted [Inr csv_record] =
     (Inr \<lparr>name = ''proc'', pid = Num 4242, running = True, command = Some ''proc.exe''\<rparr>,
      [], [EvExec (tasklist_cmd ''proc'') (Inr csv_record)])
   \<and> run (checkProcess ''win32'' ''proc'') scripted [Inr []] =
     (Inr (not_running ''proc''), [], [EvExec (tasklist_cmd ''proc'') (Inr [])])"
proof -
  have fr: "first_record csv_record =
      [DQ] @ ''proc.exe'' @ [DQ] @ '','' @ [DQ] @ ''4242'' @ [DQ] @ '','' @ [DQ] @ ''Services''
       @ [DQ] @ '','' @ [DQ] @ ''0'' @ [DQ] @ '','' @ [DQ] @ ''12,345 K'' @ [DQ]"
    by code_simp
  have inc: "includes_js (first_record csv_record) ''proc''"
    by code_simp
  have fs: "record_fields (first_record csv_record) =
      [''proc.exe'', ''4242'', ''Services'', ''0'', ''12'', ''345 K'']"
    by code_simp
  have n: "parseInt ''4242'' = Num 4242" by code_simp
  have t: "trim [] = []" by (simp add: trim_def)
  have e1: "os_exec scripted (tasklist_cmd ''proc'') [Inr csv_record] = (Inr csv_record, [])"
    by (simp add: scripted_def)
  have e2: "os_exec scripted (tasklist_cmd ''proc'') [Inr []] = (Inr [], [])"
    by (simp add: scripted_def)
  have a: "run (checkProcess ''win32'' ''proc'') scripted [Inr csv_record] =
     (Inr \<lparr>name = ''proc'', pid = Num 4242, running = True, command = Some ''proc.exe''\<rparr>,
      [], [EvExec (tasklist_cmd ''proc'') (Inr csv_record)])"
    using checkProcessWindows_first_record [OF e1, THEN conjunct1]
    by (simp add: inc fs n nth_js_def to_string_def)
  have b: "run (checkProcess ''win32'' ''proc'') scripted [Inr []] =
     (Inr (not_running ''proc''), [], [EvExec (tasklist_cmd ''proc'') (Inr [])])"
    using checkProcessWindows_first_record [OF e2, THEN conjunct2]
    by (simp add: t)
  show ?thesis using a b by simp
qed

text \<open>
  C8, as stated, has every empty result reported as not running. The test is whether the
  first record contains the name, and the empty record contains the empty name: for the
  empty name an empty listing is reported as running, with pid \<^verbatim>\<open>NaN\<close>.
\<close>

theorem checkProcessWindows_empty_name_running:
  "run (checkProcess ''win32'' []) scripted [Inr []] =
     (Inr \<lparr>name = [], pid = NaN, running = True, command = Some []\<rparr>, [],
      [EvExec (tasklist_cmd []) (Inr [])])"
proof -
  have fr: "first_record [] = []" by code_simp
  have fs: "record_fields [] = [[]]" by code_simp
  have u: "parseInt ''undefined'' = NaN" by code_simp
  have e: "os_exec scripted (tasklist_cmd []) [Inr []] = (Inr [], [])"
    by (simp add: scripted_def)
  show ?thesis
    by (simp add: checkProcess_def run_checkProcessWindows [OF e] fr fs u nth_js_def
        to_string_def)
qed

section \<open>The result of a probe\<close>

lemma strategy_pids_Inl: "strategy_pids (Inl e) = []"
  by (simp add: strategy_pids_def)

lemma try_patterns_result:
  "\<exists>info w1 tr. run (try_patterns nm cs) sys w = (Inr info, w1, tr) \<and>
     name info = nm \<and> command info = None \<and>
     (if running info then
        (\<exists>c stdout p ps. EvExec c (Inr stdout) \<in> set tr \<and>
           strategy_pids (Inr stdout) = p # ps \<and> pid info = parseInt p)
      else info = not_running nm)"
proof (induction cs arbitrary: w)
  case Nil
  show ?case by (simp add: run_try_patterns_Nil not_running_def)
next
  case (Cons c cs)
  obtain r w1 where e: "os_exec sys c w = (r, w1)" by (cases "os_exec sys c w")
  show ?case
  proof (cases "strategy_pids r")
    case Nil
    from Cons [of w1] obtain info w2 tr where
      r: "run (try_patterns nm cs) sys w1 = (Inr info, w2, tr)" and
      n: "name info = nm" "command info = None" and
      p: "if running info then
            (\<exists>c stdout p ps. EvExec c (Inr stdout) \<in> set tr \<and>
               strategy_pids (Inr stdout) = p # ps \<and> pid info = parseInt p)
          else info = not_running nm"
      by blast
    have "run (try_patterns nm (c # cs)) sys w = (Inr info, w2, EvExec c r # tr)"
      using e Nil r by (simp add: run_try_patterns_Cons)
    moreover have "if running info then
            (\<exists>c' stdout p ps. EvExec c' (Inr stdout) \<in> set (EvExec c r # tr) \<and>
               strategy_pids (Inr stdout) = p # ps \<and> pid info = parseInt p)
          else info = not_running nm"
      using p by (cases "running info") auto
    ultimately show ?thesis using n by blast
  next
    case (Cons p ps)
    then obtain stdout where s: "r = Inr stdout"
      by (cases r) (simp_all add: strategy_pids_Inl)
    have "run (try_patterns nm (c # cs)) sys w =
        (Inr \<lparr>name = nm, pid = parseInt p, running = True, command = None\<rparr>, w1,
         [EvExec c r])"
      using e Cons by (simp add: run_try_patterns_Cons)
    then show ?thesis using Cons s by auto
  qed
qed

lemma checkProcessWindows_result:
  "\<exists>info w1 tr. run (checkProcessWindows nm) sys w = (Inr info, w1, tr) \<and>
     name info = nm \<and> (command info \<noteq> None) = running info \<and>
     (if running info then
        (\<exists>c stdout. EvExec c (Inr stdout) \<in> set tr \<and>
           includes_js (first_record stdout) nm \<and>
           pid info = parseInt (to_string (nth_js (record_fields (first_record stdout)) 1)))
      else info = not_running nm)"
proof -
  obtain r w1 where e: "os_exec sys (tasklist_cmd nm) w = (r, w1)"
    by (cases "os_exec sys (tasklist_cmd nm) w")
  show ?thesis
    by (cases r) (auto simp: run_checkProcessWindows [OF e] not_running_def)
qed

text \<open>
  C10. On both platform branches the probe returns a result whose name is the queried name.
  On Windows the command field is present exactly when the result is running; on the other
  platforms it is never present.
\<close>

theorem checkProcess_name_and_command:
  "\<exists>info w1 tr. run (checkProcess platform nm) sys w = (Inr info, w1, tr) \<and>
     name info = nm \<and>
     (if platform = ''win32'' then (command info \<noteq> None) = running info
      else command info = None)"
proof (cases "platform = ''win32''")
  case True
  then show ?thesis
    using checkProcessWindows_result [of nm sys w] by (auto simp: checkProcess_def)
next
  case False
  then show ?thesis
    using try_patterns_result [of nm "patterns_of nm" sys w]
    by (auto simp: checkProcess_def run_checkProcessUnix)
qed

text \<open>
  C4, as the code has it. On every platform branch and under every command runner the probe
  returns: it never rejects. The result is either \<open>{name, pid: -1, running: false}\<close>, or it
  is running and its pid is the number that the output of a successful command reported. So
  a result that is not running has pid \<open>-1\<close>, failing commands and outputs that report no
  pid give \<open>{name, pid: -1, running: false}\<close>, and a running result has pid \<open>-1\<close> only
  when the command's output says so.
\<close>

theorem checkProcess_never_rejects:
  "\<exists>info w1 tr. run (checkProcess platform nm) sys w = (Inr info, w1, tr) \<and>
     (if running info then
        (\<exists>c stdout. EvExec c (Inr stdout) \<in> set tr \<and>
           reported_pid platform nm stdout = Some (pid info))
      else info = not_running nm)"
proof (cases "platform = ''win32''")
  case True
  obtain info w1 tr where
    r: "run (checkProcessWindows nm) sys w = (Inr info, w1, tr)" and
    p: "if running info then
          (\<exists>c stdout. EvExec c (Inr stdout) \<in> set tr \<and>
             includes_js (first_record stdout) nm \<and>
             pid info = parseInt (to_string (nth_js (record_fields (first_record stdout)) 1)))
        else info = not_running nm"
    using checkProcessWindows_result [of nm sys w] by blast
  have "if running info then
        (\<exists>c stdout. EvExec c (Inr stdout) \<in> set tr \<and>
           reported_pid platform nm stdout = Some (pid info))
      else info = not_running nm"
  proof (cases "running info")
    case running: True
    with p obtain c stdout where
      "EvExec c (Inr stdout) \<in> set tr" "includes_js (first_record stdout) nm"
      "pid info = parseInt (to_string (nth_js (record_fields (first_record stdout)) 1))"
      by auto
    then have "EvExec c (Inr stdout) \<in> set tr \<and>
        reported_pid platform nm stdout = Some (pid info)"
      using True by (simp add: reported_pid_def)
    then show ?thesis using running by auto
  next
    case False
    with p show ?thesis by simp
  qed
  with r True show ?thesis
    by (simp add: checkProcess_def)
next
  case False
  obtain info w1 tr where
    r: "run (try_patterns nm (patterns_of nm)) sys w = (Inr info, w1, tr)" and
    p: "if running info then
          (\<exists>c stdout p ps. EvExec c (Inr stdout) \<in> set tr \<and>
             strategy_pids (Inr stdout) = p # ps \<and> pid info = parseInt p)
        else info = not_running nm"
    using try_patterns_result [of nm "patterns_of nm" sys w] by blast
  have "if running info then
        (\<exists>c stdout. EvExec c (Inr stdout) \<in> set tr \<and>
           reported_pid platform nm stdout = Some (pid info))
      else info = not_running nm"
  proof (cases "running info")
    case True
    with p obtain c stdout p ps where
      "EvExec c (Inr stdout) \<in> set tr" "strategy_pids (Inr stdout) = p # ps"
      "pid info = parseInt p" by auto
    then have "EvExec c (Inr stdout) \<in> set tr \<and>
        reported_pid platform nm stdout = Some (pid info)"
      using False by (simp add: reported_pid_def)
    then show ?thesis using True by auto
  next
    case False
    with p show ?thesis by simp
  qed
  with r False show ?thesis
    by (simp add: checkProcess_def run_checkProcessUnix)
qed

text \<open>
  C4, as stated, asks for \<open>pid = -1\<close> exactly when the result is not running, and for
  \<open>{name, pid: -1, running: false}\<close> whenever nothing matched. The output of the command
  is parsed and not checked. When \<^verbatim>\<open>pgrep\<close> prints \<^verbatim>\<open>-1\<close> the result is running with pid
  \<open>-1\<close>. On Windows, when no process matched, the first line of the listing is a
  message, and for a name that occurs in the message, such as \<^verbatim>\<open>tasks\<close>, the result is
  running, with pid \<^verbatim>\<open>NaN\<close>.
\<close>

theorem checkProcess_unchecked_output:
  "run (checkProcess ''linux'' ''x'') scripted [Inr ''-1''] =
     (Inr \<lparr>name = ''x'', pid = Num (- 1), running = True, command = None\<rparr>, [],
      [EvExec (pgrep_f ''x'') (Inr ''-1'')])
   \<and> \<not> (pid \<lparr>name = ''x'', pid = Num (- 1), running = True, command = None\<rparr> = Num (- 1)
          \<longleftrightarrow> running \<lparr>name = ''x'', pid = Num (- 1), running = True, command = None\<rparr>
               = False)
   \<and> run (checkProcess ''win32'' ''tasks'') scripted [Inr (no_tasks_message @ [CR, LF])] =
     (Inr \<lparr>name = ''tasks'', pid = NaN, running = True, command = Some no_tasks_message\<rparr>,
      [], [EvExec (tasklist_cmd ''tasks'') (Inr (no_tasks_message @ [CR, LF]))])"
proof -
  have s: "strategy_pids (Inr ''-1'') = [''-1'']" by code_simp
  have n: "parseInt ''-1'' = Num (- 1)" by code_simp
  have a: "run (checkProcess ''linux'' ''x'') scripted [Inr ''-1''] =
     (Inr \<lparr>name = ''x'', pid = Num (- 1), running = True, command = None\<rparr>, [],
      [EvExec (pgrep_f ''x'') (Inr ''-1'')])"
    by (simp add: checkProcess_def run_checkProcessUnix patterns_of_def run_try_patterns_Cons
        scripted_def s n)
  have fr: "first_record (no_tasks_message @ [CR, LF]) = no_tasks_message" by code_simp
  have inc: "includes_js no_tasks_message ''tasks''" by code_simp
  have fs: "record_fields no_tasks_message = [no_tasks_message]" by code_simp
  have u: "parseInt ''undefined'' = NaN" by code_simp
  have e: "os_exec scripted (tasklist_cmd ''tasks'') [Inr (no_tasks_message @ [CR, LF])] =
      (Inr (no_tasks_message @ [CR, LF]), [])"
    by (simp add: scripted_def)
  have b: "run (checkProcess ''win32'' ''tasks'') scripted [Inr (no_tasks_message @ [CR, LF])] =
     (Inr \<lparr>name = ''tasks'', pid = NaN, running = True, command = Some no_tasks_message\<rparr>,
      [], [EvExec (tasklist_cmd ''tasks'') (Inr (no_tasks_message @ [CR, LF]))])"
    by (simp add: checkProcess_def run_checkProcessWindows [OF e] fr inc fs u nth_js_def
        to_string_def)
  show ?thesis using a b by simp
qed

section \<open>Formatting\<close>

text \<open>
  C9. \<^verbatim>\<open>formatProcessStatus\<close> is a total function of the \<^verbatim>\<open>ProcessInfo\<close> alone. For a
  running process it renders the glyph \<^verbatim>\<open>$(check)\<close>, the name, the label \<^verbatim>\<open>running\<close> and
  the pid; for one that is not running the glyph \<^verbatim>\<open>$(x)\<close>, the name and the label
  \<^verbatim>\<open>stoped\<close> (so spelled in the source), and no pid. For \<open>{name: "x", pid: 7, running: true}\<close>
  the string contains \<open>7\<close> and \<open>running\<close>; for \<open>{name: "x", pid: -1, running: false}\<close> it
  contains no digit and no pid label.
\<close>

theorem formatProcessStatus_renders:
  "formatProcessStatus info =
     (if running info then
        ''$(check) '' @ name info @ '': running (PID: '' @ num_to_string (pid info) @ '')''
      else ''$(x) '' @ name info @ '': stoped'')
   \<and> formatProcessStatus \<lparr>name = ''x'', pid = Num 7, running = True, command = None\<rparr> =
       ''$(check) x: running (PID: 7)''
   \<and> includes_js
         (formatProcessStatus \<lparr>name = ''x'', pid = Num 7, running = True, command = None\<rparr>)
         ''7''
   \<and> includes_js
         (formatProcessStatus \<lparr>name = ''x'', pid = Num 7, running = True, command = None\<rparr>)
         ''running''
   \<and> formatProcessStatus \<lparr>name = ''x'', pid = Num (- 1), running = False, command = None\<rparr> =
       ''$(x) x: stoped''
   \<and> \<not> list_ex is_digit
         (formatProcessStatus
            \<lparr>name = ''x'', pid = Num (- 1), running = False, command = None\<rparr>)
   \<and> \<not> includes_js
         (formatProcessStatus
            \<lparr>name = ''x'', pid = Num (- 1), running = False, command = None\<rparr>)
         ''PID''"
proof -
  have g: "formatProcessStatus i =
     (if running i then
        ''$(check) '' @ name i @ '': running (PID: '' @ num_to_string (pid i) @ '')''
      else ''$(x) '' @ name i @ '': stoped'')" for i
    by (simp add: formatProcessStatus_def)
  have n: "nat_to_string 7 = ''7''" by code_simp
  have a: "formatProcessStatus \<lparr>name = ''x'', pid = Num 7, running = True, command = None\<rparr> =
       ''$(check) x: running (PID: 7)''"
    by (simp add: g n)
  have b: "formatProcessStatus
      \<lparr>name = ''x'', pid = Num (- 1), running = False, command = None\<rparr> = ''$(x) x: stoped''"
    by (simp add: g)
  have c: "includes_js ''$(check) x: running (PID: 7)'' ''7''" by code_simp
  have d: "includes_js ''$(check) x: running (PID: 7)'' ''running''" by code_simp
  have e: "\<not> list_ex is_digit ''$(x) x: stoped''" by code_simp
  have f: "\<not> includes_js ''$(x) x: stoped'' ''PID''" by code_simp
  show ?thesis
    unfolding a b using g [of info] c d e f by simp
qed

section \<open>Terminating a process on Unix\<close>

lemma run_kill_pids:
  "run (kill_pids signal pids killed) sys w =
     (case kill_each sys signal pids w of
        (tr, w1) \<Rightarrow> (Inr (killed \<or> list_ex ev_ok tr), w1, tr))"
proof (induction pids arbitrary: killed w)
  case Nil
  show ?case by simp
next
  case (Cons p pids)
  obtain r w1 where e: "os_exec sys (kill_cmd signal p) w = (r, w1)"
    by (cases "os_exec sys (kill_cmd signal p) w")
  show ?case
    by (cases r)
      (auto simp: e Cons run_bind run_try_catch run_await_exec split: prod.splits)
qed

lemma kill_each_commands:
  "kill_each sys signal pids w = (tr, w1) \<Longrightarrow> commands tr = map (kill_cmd signal) pids"
  by (induction pids arbitrary: w tr) (auto split: prod.splits)


lemma checkProcess_returns:
  "\<exists>info w1 tr. run (checkProcess platform nm) sys w = (Inr info, w1, tr)"
proof (cases "platform = ''win32''")
  case True
  then show ?thesis
    using checkProcessWindows_result [of nm sys w] by (auto simp: checkProcess_def)
next
  case False
  then show ?thesis
    using try_patterns_result [of nm "patterns_of nm" sys w]
    by (auto simp: checkProcess_def run_checkProcessUnix)
qed

lemma run_broad_phase:
  "run (bind (try_catch (await_exec c (\<lambda>_. Log m (Return True))) (\<lambda>_. Return False)) k) sys w =
     (case os_exec sys c w of
        (r1, w1) \<Rightarrow>
          (case run (k (\<not> isl r1)) sys w1 of
             (out, w2, tr) \<Rightarrow>
               (out, w2, EvExec c r1 # (if isl r1 then [] else [EvLog m]) @ tr)))"
  by (auto simp: run_bind run_try_catch run_await_exec split: prod.splits sum.splits)

lemma run_enumeration:
  "run (in_try killed (await_exec c Return) k) sys w =
     (case os_exec sys c w of
        (r2, w1) \<Rightarrow>
          (case r2 of
             Inl err \<Rightarrow>
               ((if code err = Some 1 then Inr killed else Inl err), w1, [EvExec c r2])
           | Inr stdout \<Rightarrow>
               (case run (k stdout) sys w1 of
                  (out, w2, tr) \<Rightarrow> (out, w2, EvExec c r2 # tr))))"
  by (simp add: run_in_try run_await_exec split: prod.splits sum.splits)

lemma run_targeted_phase:
  "run (bind (if pids \<noteq> [] then Log m (kill_pids signal pids killed) else Return killed)
          k) sys w =
     (case kill_each sys signal pids w of
        (tr3, w3) \<Rightarrow>
          (case run (k (killed \<or> list_ex ev_ok tr3)) sys w3 of
             (out, w4, tr) \<Rightarrow>
               (out, w4, (if pids = [] then [] else [EvLog m]) @ tr3 @ tr)))"
  by (cases pids) (simp_all add: run_bind run_kill_pids del: kill_pids.simps split: prod.splits)

lemma run_settle_delay:
  "run (in_try killed (Sleep n (Return ())) k) sys w =
     (case run (k ()) sys (os_sleep sys n w) of (out, w2, tr) \<Rightarrow> (out, w2, EvSleep n # tr))"
  by (simp add: run_in_try split: prod.splits)

lemma run_probe_in_try:
  "run (in_try killed (checkProcess platform nm) k) sys w =
     (case run (checkProcess platform nm) sys w of
        (probe, w1, tr1) \<Rightarrow>
          (case probe of
             Inl e \<Rightarrow> ((if code e = Some 1 then Inr killed else Inl e), w1, tr1)
           | Inr info \<Rightarrow>
               (case run (k info) sys w1 of (out, w2, tr2) \<Rightarrow> (out, w2, tr1 @ tr2))))"
  by (simp add: run_in_try split: prod.splits sum.splits)

lemma killProcessUnix_body:
  "killProcessUnix platform nm force =
   Log (LogKilling nm force)
     (bind
        (try_catch
           (await_exec (broad_kill_cmd (signal_of force) nm)
              (\<lambda>_. Log (LogSent nm) (Return True)))
           (\<lambda>_. Return False))
        (\<lambda>killed1.
           in_try killed1 (await_exec (pgrep_f nm) Return)
             (\<lambda>stdout.
                bind
                  (if length (pid_lines stdout) > 0 then
                     Log (LogFound (length (pid_lines stdout)) nm (pid_lines stdout))
                       (kill_pids (signal_of force) (pid_lines stdout) killed1)
                   else Return killed1)
                  (\<lambda>killed2.
                     if \<not> force then
                       in_try killed2 (Sleep 1000 (Return ()))
                         (\<lambda>_. in_try killed2 (checkProcess platform nm)
                            (\<lambda>stillRunning.
                               if running stillRunning then
                                 Log (LogStill nm) (killProcessUnix platform nm True)
                               else Return killed2))
                     else Return killed2))))"
  by (subst killProcessUnix.simps) (simp only: Let_def signal_of_def pid_lines_def)

lemma run_killProcessUnix:
  assumes b: "os_exec sys (broad_kill_cmd (signal_of force) nm) w = (r1, w1)"
    and e: "os_exec sys (pgrep_f nm) w1 = (r2, w2)"
  shows "run (killProcessUnix platform nm force) sys w =
     (case r2 of
        Inl err \<Rightarrow>
          ((if code err = Some 1 then Inr (\<not> isl r1) else Inl err), w2,
           phase_events nm force r1 r2 [])
      | Inr stdout \<Rightarrow>
          (case kill_each sys (signal_of force) (pid_lines stdout) w2 of
             (tr3, w3) \<Rightarrow>
               if force then
                 (Inr (\<not> isl r1 \<or> list_ex ev_ok tr3), w3, phase_events nm force r1 r2 tr3)
               else
                 (case run (checkProcess platform nm) sys (os_sleep sys 1000 w3) of
                    (probe, w5, tr5) \<Rightarrow>
                      (case probe of
                         Inl err \<Rightarrow>
                           ((if code err = Some 1 then Inr (\<not> isl r1 \<or> list_ex ev_ok tr3)
                             else Inl err), w5,
                            phase_events nm force r1 r2 tr3 @ EvSleep 1000 # tr5)
                       | Inr info \<Rightarrow>
                           if running info then
                             (case run (killProcessUnix platform nm True) sys w5 of
                                (out, w6, tr6) \<Rightarrow>
                                  (out, w6,
                                   phase_events nm force r1 r2 tr3 @ EvSleep 1000 # tr5
                                     @ EvLog (LogStill nm) # tr6))
                           else
                             (Inr (\<not> isl r1 \<or> list_ex ev_ok tr3), w5,
                              phase_events nm force r1 r2 tr3 @ EvSleep 1000 # tr5)))))"
proof -
  note unfold = killProcessUnix_body [of platform nm force]
  show ?thesis
  proof (cases r2)
    case (Inl err)
    show ?thesis
      unfolding unfold
      by (simp add: run_broad_phase run_enumeration b e Inl phase_events_def)
  next
    case (Inr stdout)
    obtain tr3 w3 where k: "kill_each sys (signal_of force) (pid_lines stdout) w2 = (tr3, w3)"
      by (cases "kill_each sys (signal_of force) (pid_lines stdout) w2")
    show ?thesis
    proof (cases force)
      case True
      show ?thesis
        unfolding unfold
        using b e k True
        by (simp add: run_broad_phase run_enumeration run_targeted_phase Inr
            phase_events_def del: kill_pids.simps)
    next
      case False
      obtain probe w5 tr5 where
        p: "run (checkProcess platform nm) sys (os_sleep sys 1000 w3) = (probe, w5, tr5)"
        by (cases "run (checkProcess platform nm) sys (os_sleep sys 1000 w3)")
      obtain out w6 tr6 where
        f: "run (killProcessUnix platform nm True) sys w5 = (out, w6, tr6)"
        by (cases "run (killProcessUnix platform nm True) sys w5")
      show ?thesis
        unfolding unfold
        using b e k p f False
        by (cases probe)
          (simp_all add: run_broad_phase run_enumeration run_targeted_phase run_settle_delay
            run_probe_in_try Inr phase_events_def del: kill_pids.simps)
    qed
  qed
qed


lemma commands_append: "commands (xs @ ys) = commands xs @ commands ys"
  by (induction xs rule: commands.induct) simp_all




lemma phase_events_commands:
  "commands (phase_events nm force r1 r2 tr3) =
     broad_kill_cmd (signal_of force) nm # pgrep_f nm # commands tr3"
  by (simp add: phase_events_def commands_append split: sum.splits)

text \<open>The forced call: one attempt.\<close>

lemma run_killProcessUnix_forced:
  assumes b: "os_exec sys (broad_kill_cmd ''-9'' nm) w = (r1, w1)"
    and e: "os_exec sys (pgrep_f nm) w1 = (r2, w2)"
  shows "run (killProcessUnix platform nm True) sys w =
     (case r2 of
        Inl err \<Rightarrow>
          ((if code err = Some 1 then Inr (\<not> isl r1) else Inl err), w2,
           phase_events nm True r1 r2 [])
      | Inr stdout \<Rightarrow>
          (case kill_each sys ''-9'' (pid_lines stdout) w2 of
             (tr3, w3) \<Rightarrow>
               (Inr (\<not> isl r1 \<or> list_ex ev_ok tr3), w3, phase_events nm True r1 r2 tr3)))"
  using run_killProcessUnix [of sys True nm w r1 w1 r2 w2 platform] b e
  by (simp add: signal_of_def split: sum.splits prod.splits)


text \<open>The graceful call whose enumeration succeeds.\<close>

lemma run_killProcessUnix_graceful:
  assumes b: "os_exec sys (broad_kill_cmd ''-15'' nm) w = (r1, w1)"
    and e: "os_exec sys (pgrep_f nm) w1 = (Inr stdout, w2)"
    and k: "kill_each sys ''-15'' (pid_lines stdout) w2 = (tr3, w3)"
    and p: "run (checkProcess platform nm) sys (os_sleep sys 1000 w3) = (probe, w5, tr5)"
    and f: "run (killProcessUnix platform nm True) sys w5 = (forced, w6, tr6)"
  shows "\<exists>info. probe = Inr info \<and>
     run (killProcessUnix platform nm False) sys w =
       (if running info then
          (forced, w6,
           phase_events nm False r1 (Inr stdout) tr3 @ [EvSleep 1000] @ tr5
             @ [EvLog (LogStill nm)] @ tr6)
        else
          (Inr (\<not> isl r1 \<or> list_ex ev_ok tr3), w5,
           phase_events nm False r1 (Inr stdout) tr3 @ [EvSleep 1000] @ tr5))"
proof -
  from checkProcess_returns [of platform nm sys "os_sleep sys 1000 w3"] p
  obtain info where i: "probe = Inr info" by auto
  have s: "signal_of False = ''-15''" by (simp add: signal_of_def)
  show ?thesis
    using run_killProcessUnix [of sys False nm w r1 w1 "Inr stdout" w2 platform] b e k p f i
    by (simp add: s)
qed

lemma killProcess_unix:
  "platform \<noteq> ''win32'' \<Longrightarrow>
   killProcess platform nm force = killProcessUnix platform nm force"
  by (simp add: killProcess_def)

text \<open>
  C2, as the code has it. On a platform other than Windows, take a graceful
  \<^verbatim>\<open>killProcess(name, false)\<close> whose broad kill had the outcome \<open>r1\<close>, whose enumeration
  of the pids did not fail and whose targeted phase sent the signals \<open>tr3\<close>. Its transcript is: the broad kill, the enumeration, the signals
  to the pids in order, then the delay of 1000 ms, then the probe of the same name; when
  the probe reports the process running, the transcript goes on with the forced call, and
  the outcome and the final state are those of the forced call; when it does not, the call
  returns its own flag.
\<close>

theorem killProcess_graceful_sequence:
  assumes "platform \<noteq> ''win32''"
    and "os_exec sys (broad_kill_cmd ''-15'' nm) w = (r1, w1)"
    and "os_exec sys (pgrep_f nm) w1 = (Inr stdout, w2)"
    and "kill_each sys ''-15'' (pid_lines stdout) w2 = (tr3, w3)"
    and "run (checkProcess platform nm) sys (os_sleep sys 1000 w3) = (probe, w5, tr5)"
    and "run (killProcess platform nm True) sys w5 = (forced, w6, tr6)"
  shows "\<exists>info. probe = Inr info \<and>
     run (killProcess platform nm False) sys w =
       (if running info then
          (forced, w6,
           phase_events nm False r1 (Inr stdout) tr3 @ [EvSleep 1000] @ tr5
             @ [EvLog (LogStill nm)] @ tr6)
        else
          (Inr (\<not> isl r1 \<or> list_ex ev_ok tr3), w5,
           phase_events nm False r1 (Inr stdout) tr3 @ [EvSleep 1000] @ tr5))
     \<and> commands (phase_events nm False r1 (Inr stdout) tr3) =
         broad_kill_cmd ''-15'' nm # pgrep_f nm # map (kill_cmd ''-15'') (pid_lines stdout)"
proof -
  have c: "commands (phase_events nm False r1 (Inr stdout) tr3) =
         broad_kill_cmd ''-15'' nm # pgrep_f nm # map (kill_cmd ''-15'') (pid_lines stdout)"
    using kill_each_commands [OF assms(4)]
    by (simp add: phase_events_commands signal_of_def)
  from run_killProcessUnix_graceful [OF assms(2-5), of forced w6 tr6] assms(1,6) c
  show ?thesis
    by (simp add: killProcess_unix)
qed

lemma pid_lines_42: "pid_lines ''42'' = [''42'']"
  by code_simp

lemma strategy_pids_42: "strategy_pids (Inr ''42'') = [''42'']"
  by code_simp

lemma parseInt_42: "parseInt ''42'' = Num 42"
  by code_simp

lemma scripted_exec:
  "os_exec scripted c (r # rs) = (r, rs)" "os_exec scripted c [] = (Inl (ExecError None), [])"
  "os_sleep scripted n w = w"
  by (simp_all add: scripted_def)

lemma scripted_probe_42:
  "platform \<noteq> ''win32'' \<Longrightarrow>
   run (checkProcess platform nm) scripted (Inr ''42'' # rs) =
     (Inr \<lparr>name = nm, pid = Num 42, running = True, command = None\<rparr>, rs,
      [EvExec (pgrep_f nm) (Inr ''42'')])"
  by (simp add: checkProcess_def run_checkProcessUnix patterns_of_def run_try_patterns_Cons
      scripted_exec strategy_pids_42 parseInt_42)

lemma scripted_forced_no_match:
  "run (killProcessUnix platform nm True) scripted [r, no_match] =
     (Inr (\<not> isl r), [], phase_events nm True r no_match [])"
  using run_killProcessUnix_forced [of scripted nm "[r, no_match]" r "[no_match]" no_match "[]"
      platform]
  by (simp add: scripted_exec no_match_def)

theorem killProcess_graceful_sequence_witness:
  "run (killProcess ''linux'' ''x'' False) scripted escalating_script =
     (Inr True, [],
      [EvLog (LogKilling ''x'' False), EvExec (broad_kill_cmd ''-15'' ''x'') (Inr []),
       EvLog (LogSent ''x''), EvExec (pgrep_f ''x'') (Inr ''42''),
       EvLog (LogFound 1 ''x'' [''42'']), EvExec (kill_cmd ''-15'' ''42'') (Inr []),
       EvSleep 1000, EvExec (pgrep_f ''x'') (Inr ''42''), EvLog (LogStill ''x''),
       EvLog (LogKilling ''x'' True), EvExec (broad_kill_cmd ''-9'' ''x'') (Inr []),
       EvLog (LogSent ''x''), EvExec (pgrep_f ''x'') no_match])"
proof -
  have p: "''linux'' \<noteq> ''win32''" by simp
  have b: "os_exec scripted (broad_kill_cmd ''-15'' ''x'') escalating_script =
      (Inr [], [Inr ''42'', Inr [], Inr ''42'', Inr [], no_match])"
    by (simp add: escalating_script_def scripted_exec)
  have e: "os_exec scripted (pgrep_f ''x'') [Inr ''42'', Inr [], Inr ''42'', Inr [], no_match] =
      (Inr ''42'', [Inr [], Inr ''42'', Inr [], no_match])"
    by (simp add: scripted_exec)
  have k: "kill_each scripted ''-15'' (pid_lines ''42'') [Inr [], Inr ''42'', Inr [], no_match] =
      ([EvExec (kill_cmd ''-15'' ''42'') (Inr [])], [Inr ''42'', Inr [], no_match])"
    by (simp add: pid_lines_42 scripted_exec)
  have r: "run (checkProcess ''linux'' ''x'') scripted
        (os_sleep scripted 1000 [Inr ''42'', Inr [], no_match]) =
      (Inr \<lparr>name = ''x'', pid = Num 42, running = True, command = None\<rparr>, [Inr [], no_match],
       [EvExec (pgrep_f ''x'') (Inr ''42'')])"
    by (simp add: scripted_probe_42 scripted_exec)
  have f: "run (killProcess ''linux'' ''x'' True) scripted [Inr [], no_match] =
      (Inr True, [], phase_events ''x'' True (Inr []) no_match [])"
    using scripted_forced_no_match [of "''linux''" "''x''" "Inr []"]
    by (simp add: killProcess_def)
  from killProcess_graceful_sequence [OF p b e k r f]
  show ?thesis
    by (simp add: phase_events_def pid_lines_42 signal_of_def no_match_def)
qed

text \<open>
  C2, as stated, has every graceful call that dispatched its signals wait and probe again
  before it returns. The enumeration \<^verbatim>\<open>pgrep -f\<close> exits with status 1 when no process
  matches, and the \<^verbatim>\<open>catch\<close> clause then returns at once: here the broad kill succeeds,
  nothing is left for the enumeration to list, and the call returns true with no delay and
  no probe.
\<close>

theorem killProcess_returns_without_probe:
  "run (killProcess ''linux'' ''x'' False) scripted [Inr [], no_match] =
     (Inr True, [],
      [EvLog (LogKilling ''x'' False), EvExec (broad_kill_cmd ''-15'' ''x'') (Inr []),
       EvLog (LogSent ''x''), EvExec (pgrep_f ''x'') no_match])
   \<and> EvSleep 1000 \<notin> set
       [EvLog (LogKilling ''x'' False), EvExec (broad_kill_cmd ''-15'' ''x'') (Inr []),
        EvLog (LogSent ''x''), EvExec (pgrep_f ''x'') no_match]"
proof -
  have s: "signal_of False = ''-15''" by (simp add: signal_of_def)
  have b: "os_exec scripted (broad_kill_cmd (signal_of False) ''x'') [Inr [], no_match] =
      (Inr [], [no_match])"
    by (simp add: scripted_exec)
  have e: "os_exec scripted (pgrep_f ''x'') [no_match] = (no_match, [])"
    by (simp add: scripted_exec)
  have "run (killProcessUnix ''linux'' ''x'' False) scripted [Inr [], no_match] =
     (Inr True, [],
      [EvLog (LogKilling ''x'' False), EvExec (broad_kill_cmd ''-15'' ''x'') (Inr []),
       EvLog (LogSent ''x''), EvExec (pgrep_f ''x'') no_match])"
    using run_killProcessUnix [OF b e, of "''linux''"]
    by (simp add: no_match_def phase_events_def s)
  then show ?thesis by (simp add: killProcess_def)
qed



lemma scripted_graceful_42:
  assumes "platform \<noteq> ''win32''"
  shows "run (killProcessUnix platform nm False) scripted
            [Inr [], Inr ''42'', Inr [], Inr ''42'', r, no_match] =
     (Inr (\<not> isl r), [],
      phase_events nm False (Inr []) (Inr ''42'') [EvExec (kill_cmd ''-15'' ''42'') (Inr [])]
        @ [EvSleep 1000] @ [EvExec (pgrep_f nm) (Inr ''42'')] @ [EvLog (LogStill nm)]
        @ phase_events nm True r no_match [])"
proof -
  have b: "os_exec scripted (broad_kill_cmd ''-15'' nm)
        [Inr [], Inr ''42'', Inr [], Inr ''42'', r, no_match] =
      (Inr [], [Inr ''42'', Inr [], Inr ''42'', r, no_match])"
    by (simp add: scripted_exec)
  have e: "os_exec scripted (pgrep_f nm) [Inr ''42'', Inr [], Inr ''42'', r, no_match] =
      (Inr ''42'', [Inr [], Inr ''42'', r, no_match])"
    by (simp add: scripted_exec)
  have k: "kill_each scripted ''-15'' (pid_lines ''42'') [Inr [], Inr ''42'', r, no_match] =
      ([EvExec (kill_cmd ''-15'' ''42'') (Inr [])], [Inr ''42'', r, no_match])"
    by (simp add: pid_lines_42 scripted_exec)
  have p: "run (checkProcess platform nm) scripted
        (os_sleep scripted 1000 [Inr ''42'', r, no_match]) =
      (Inr \<lparr>name = nm, pid = Num 42, running = True, command = None\<rparr>, [r, no_match],
       [EvExec (pgrep_f nm) (Inr ''42'')])"
    using assms by (simp add: scripted_probe_42 scripted_exec)
  from run_killProcessUnix_graceful [OF b e k p scripted_forced_no_match [of platform nm r]]
  show ?thesis by simp
qed


lemma commands_prefix: "prefix xs ys \<Longrightarrow> prefix (commands xs) (commands ys)"
  by (auto simp: prefix_def commands_append)

text \<open>
  C5, as the code has it. On a platform other than Windows the transcript of one attempt of
  \<^verbatim>\<open>killProcess\<close> begins with the broad kill, the enumeration and then the selected
  signal to every pid that the enumeration listed, in order, whatever the outcome for the
  pids before; the flag of the attempt is true exactly when the broad kill succeeded or the
  signal to at least one pid succeeded. A forced call ends there and returns this flag, and
  so does a graceful call, after the delay and the probe, when the probe reports the
  process not running. When the probe reports it running, the graceful call goes on with
  the forced call and returns its outcome instead. When the enumeration fails, the call
  ends there: it returns whether the broad kill succeeded if the exit code is 1, and is
  rejected with the failure otherwise.
\<close>

theorem killProcess_attempt_outcome:
  assumes "platform \<noteq> ''win32''"
    and "os_exec sys (broad_kill_cmd (signal_of force) nm) w = (r1, w1)"
    and "os_exec sys (pgrep_f nm) w1 = (r2, w2)"
    and "run (killProcess platform nm force) sys w = (out, w', tr)"
  shows "(\<forall>err. r2 = Inl err \<longrightarrow>
           out = (if code err = Some 1 then Inr (\<not> isl r1) else Inl err) \<and> w' = w2 \<and>
           tr = phase_events nm force r1 r2 [])
     \<and> (\<forall>stdout tr3 w3.
           r2 = Inr stdout \<and> kill_each sys (signal_of force) (pid_lines stdout) w2 = (tr3, w3) \<longrightarrow>
           prefix (phase_events nm force r1 r2 tr3) tr
           \<and> prefix
               (broad_kill_cmd (signal_of force) nm # pgrep_f nm
                  # map (kill_cmd (signal_of force)) (pid_lines stdout))
               (commands tr)
           \<and> (force \<longrightarrow>
                out = Inr (\<not> isl r1 \<or> list_ex ev_ok tr3) \<and> w' = w3 \<and>
                tr = phase_events nm force r1 r2 tr3)
           \<and> (\<forall>info w5 tr5.
                 \<not> force \<and>
                 run (checkProcess platform nm) sys (os_sleep sys 1000 w3) = (Inr info, w5, tr5) \<longrightarrow>
                 (if running info then
                    (\<exists>tr6. run (killProcess platform nm True) sys w5 = (out, w', tr6) \<and>
                       tr = phase_events nm force r1 r2 tr3 @ [EvSleep 1000] @ tr5
                              @ [EvLog (LogStill nm)] @ tr6)
                  else out = Inr (\<not> isl r1 \<or> list_ex ev_ok tr3) \<and> w' = w5 \<and>
                    tr = phase_events nm force r1 r2 tr3 @ [EvSleep 1000] @ tr5)))"
proof -
  have g: "run (killProcessUnix platform nm force) sys w = (out, w', tr)"
    using assms(1,4) by (simp add: killProcess_unix)
  have u: "killProcess platform nm True = killProcessUnix platform nm True"
    using assms(1) by (simp add: killProcess_unix)
  have 1: "out = (if code err = Some 1 then Inr (\<not> isl r1) else Inl err) \<and> w' = w2 \<and>
      tr = phase_events nm force r1 r2 []" if "r2 = Inl err" for err
    using run_killProcessUnix [OF assms(2,3), of platform] g that by auto
  have 3: "out = Inr (\<not> isl r1 \<or> list_ex ev_ok tr3) \<and> w' = w3 \<and>
      tr = phase_events nm force r1 r2 tr3"
    if "r2 = Inr stdout" "kill_each sys (signal_of force) (pid_lines stdout) w2 = (tr3, w3)" force
    for stdout tr3 w3
    using run_killProcessUnix [OF assms(2,3), of platform] g that by auto
  have 4: "if running info then
             (\<exists>tr6. run (killProcess platform nm True) sys w5 = (out, w', tr6) \<and>
                tr = phase_events nm force r1 r2 tr3 @ [EvSleep 1000] @ tr5
                       @ [EvLog (LogStill nm)] @ tr6)
           else out = Inr (\<not> isl r1 \<or> list_ex ev_ok tr3) \<and> w' = w5 \<and>
             tr = phase_events nm force r1 r2 tr3 @ [EvSleep 1000] @ tr5"
    if r: "r2 = Inr stdout"
      and k: "kill_each sys (signal_of force) (pid_lines stdout) w2 = (tr3, w3)"
      and nf: "\<not> force"
      and p: "run (checkProcess platform nm) sys (os_sleep sys 1000 w3) = (Inr info, w5, tr5)"
    for stdout tr3 w3 info w5 tr5
  proof -
    have s: "signal_of force = ''-15''" using nf by (simp add: signal_of_def)
    have fF: "force = False" using nf by simp
    have g': "run (killProcessUnix platform nm False) sys w = (out, w', tr)"
      using g nf by simp
    have b': "os_exec sys (broad_kill_cmd ''-15'' nm) w = (r1, w1)"
      using assms(2) by (simp add: s)
    have e': "os_exec sys (pgrep_f nm) w1 = (Inr stdout, w2)"
      using assms(3) r by simp
    have k': "kill_each sys ''-15'' (pid_lines stdout) w2 = (tr3, w3)"
      using k by (simp add: s)
    obtain forced w6 tr6 where
      f: "run (killProcessUnix platform nm True) sys w5 = (forced, w6, tr6)"
      by (cases "run (killProcessUnix platform nm True) sys w5")
    from run_killProcessUnix_graceful [OF b' e' k' p f] g'
    have "(out, w', tr) =
       (if running info then
          (forced, w6,
           phase_events nm False r1 (Inr stdout) tr3 @ [EvSleep 1000] @ tr5
             @ [EvLog (LogStill nm)] @ tr6)
        else
          (Inr (\<not> isl r1 \<or> list_ex ev_ok tr3), w5,
           phase_events nm False r1 (Inr stdout) tr3 @ [EvSleep 1000] @ tr5))"
      by simp
    then show ?thesis
      using f by (cases "running info") (simp_all add: u r fF)
  qed
  have 5: "prefix (phase_events nm force r1 r2 tr3) tr"
    if r: "r2 = Inr stdout"
      and k: "kill_each sys (signal_of force) (pid_lines stdout) w2 = (tr3, w3)"
    for stdout tr3 w3
  proof (cases force)
    case True
    with 3 [OF r k] show ?thesis by simp
  next
    case False
    obtain info w5 tr5 where
      "run (checkProcess platform nm) sys (os_sleep sys 1000 w3) = (Inr info, w5, tr5)"
      using checkProcess_returns [of platform nm sys "os_sleep sys 1000 w3"] by blast
    from 4 [OF r k False this] show ?thesis
      by (cases "running info") (auto simp: prefix_def)
  qed
  have 6: "prefix
      (broad_kill_cmd (signal_of force) nm # pgrep_f nm
         # map (kill_cmd (signal_of force)) (pid_lines stdout))
      (commands tr)"
    if r: "r2 = Inr stdout"
      and k: "kill_each sys (signal_of force) (pid_lines stdout) w2 = (tr3, w3)"
    for stdout tr3 w3
    using commands_prefix [OF 5 [OF r k]] kill_each_commands [OF k]
    by (simp add: phase_events_commands)
  show ?thesis
  proof (intro conjI allI impI)
    fix err assume "r2 = Inl err"
    from 1 [OF this]
    show "out = (if code err = Some 1 then Inr (\<not> isl r1) else Inl err)" "w' = w2"
      "tr = phase_events nm force r1 r2 []" by simp_all
  next
    fix stdout tr3 w3
    assume a: "r2 = Inr stdout \<and>
      kill_each sys (signal_of force) (pid_lines stdout) w2 = (tr3, w3)"
    show "prefix (phase_events nm force r1 r2 tr3) tr"
      using a 5 by blast
    show "prefix
      (broad_kill_cmd (signal_of force) nm # pgrep_f nm
         # map (kill_cmd (signal_of force)) (pid_lines stdout))
      (commands tr)"
      using a 6 by blast
    {
      assume force
      with a 3 [of stdout tr3 w3]
      show "out = Inr (\<not> isl r1 \<or> list_ex ev_ok tr3)" "w' = w3"
        "tr = phase_events nm force r1 r2 tr3" by simp_all
    }
    fix info w5 tr5
    assume "\<not> force \<and>
        run (checkProcess platform nm) sys (os_sleep sys 1000 w3) = (Inr info, w5, tr5)"
    with a 4 [of stdout tr3 w3 info w5 tr5]
    show "if running info then
        (\<exists>tr6. run (killProcess platform nm True) sys w5 = (out, w', tr6) \<and>
           tr = phase_events nm force r1 r2 tr3 @ [EvSleep 1000] @ tr5
                  @ [EvLog (LogStill nm)] @ tr6)
      else out = Inr (\<not> isl r1 \<or> list_ex ev_ok tr3) \<and> w' = w5 \<and>
        tr = phase_events nm force r1 r2 tr3 @ [EvSleep 1000] @ tr5"
      by blast
  qed
qed

lemma pid_lines_two_pids: "pid_lines two_pids = [''4242'', ''4250'']"
  by code_simp

theorem killProcess_attempt_outcome_witness:
  "run (killProcess ''linux'' ''x'' True) scripted [no_match, Inr two_pids, no_match, Inr []] =
     (Inr True, [],
      [EvLog (LogKilling ''x'' True), EvExec (broad_kill_cmd ''-9'' ''x'') no_match,
       EvExec (pgrep_f ''x'') (Inr two_pids), EvLog (LogFound 2 ''x'' [''4242'', ''4250'']),
       EvExec (kill_cmd ''-9'' ''4242'') no_match, EvExec (kill_cmd ''-9'' ''4250'') (Inr [])])"
proof -
  have p: "''linux'' \<noteq> ''win32''" by simp
  have s: "signal_of True = ''-9''" by (simp add: signal_of_def)
  have b: "os_exec scripted (broad_kill_cmd (signal_of True) ''x'')
        [no_match, Inr two_pids, no_match, Inr []] = (no_match, [Inr two_pids, no_match, Inr []])"
    by (simp add: scripted_exec)
  have e: "os_exec scripted (pgrep_f ''x'') [Inr two_pids, no_match, Inr []] =
      (Inr two_pids, [no_match, Inr []])"
    by (simp add: scripted_exec)
  have k: "kill_each scripted (signal_of True) (pid_lines two_pids) [no_match, Inr []] =
      ([EvExec (kill_cmd ''-9'' ''4242'') no_match, EvExec (kill_cmd ''-9'' ''4250'') (Inr [])],
       [])"
    by (simp add: pid_lines_two_pids scripted_exec s)
  obtain out w' tr where
    g: "run (killProcess ''linux'' ''x'' True) scripted [no_match, Inr two_pids, no_match, Inr []]
      = (out, w', tr)"
    by (cases "run (killProcess ''linux'' ''x'' True) scripted
          [no_match, Inr two_pids, no_match, Inr []]")
  note th = killProcess_attempt_outcome [OF p b e g, THEN conjunct2, rule_format,
      of two_pids
        "[EvExec (kill_cmd ''-9'' ''4242'') no_match, EvExec (kill_cmd ''-9'' ''4250'') (Inr [])]"
        "[]", THEN conjunct2, THEN conjunct2, THEN conjunct1, rule_format]
  have "out = Inr (\<not> isl no_match \<or>
        list_ex ev_ok
          [EvExec (kill_cmd ''-9'' ''4242'') no_match,
           EvExec (kill_cmd ''-9'' ''4250'') (Inr [])]) \<and>
      w' = [] \<and>
      tr = phase_events ''x'' True no_match (Inr two_pids)
        [EvExec (kill_cmd ''-9'' ''4242'') no_match, EvExec (kill_cmd ''-9'' ''4250'') (Inr [])]"
    using th k by simp
  then have "out = Inr True" "w' = []"
    "tr = [EvLog (LogKilling ''x'' True), EvExec (broad_kill_cmd ''-9'' ''x'') no_match,
       EvExec (pgrep_f ''x'') (Inr two_pids), EvLog (LogFound 2 ''x'' [''4242'', ''4250'']),
       EvExec (kill_cmd ''-9'' ''4242'') no_match, EvExec (kill_cmd ''-9'' ''4250'') (Inr [])]"
    by (simp_all add: no_match_def phase_events_def pid_lines_two_pids s)
  with g show ?thesis by simp
qed

text \<open>
  C5, as stated, lets \<^verbatim>\<open>killProcess\<close> return true whenever the broad kill dispatched
  something or a signal to a pid succeeded. In this run the graceful attempt does both, the
  process is still there after the delay and gone when the forced attempt starts: the
  forced attempt dispatches nothing, and its flag, false, is what the call returns.
\<close>

theorem killProcess_dispatched_but_false:
  "run (killProcess ''linux'' ''x'' False) scripted late_exit_script =
     (Inr False, [],
      [EvLog (LogKilling ''x'' False), EvExec (broad_kill_cmd ''-15'' ''x'') (Inr []),
       EvLog (LogSent ''x''), EvExec (pgrep_f ''x'') (Inr ''42''),
       EvLog (LogFound 1 ''x'' [''42'']), EvExec (kill_cmd ''-15'' ''42'') (Inr []),
       EvSleep 1000, EvExec (pgrep_f ''x'') (Inr ''42''), EvLog (LogStill ''x''),
       EvLog (LogKilling ''x'' True), EvExec (broad_kill_cmd ''-9'' ''x'') no_match,
       EvExec (pgrep_f ''x'') no_match])"
proof -
  have p: "''linux'' \<noteq> ''win32''" by simp
  show ?thesis
    using scripted_graceful_42 [OF p, of "''x''" no_match]
    by (simp add: killProcess_def late_exit_script_def phase_events_def pid_lines_42
        signal_of_def no_match_def)
qed

section \<open>All managed processes\<close>

lemma reach_settle:
  "reach sys R (settle p k) = reach sys (\<lambda>r. reach sys R (k r)) p"
  by (induction p) simp_all

lemma reach_mono:
  "reach sys Q p \<Longrightarrow> (\<And>r. Q r \<Longrightarrow> R r) \<Longrightarrow> reach sys R p"
  by (induction p) auto

lemma reach_step:
  "reach sys R p \<Longrightarrow> step p sys w = (p', w1, tr) \<Longrightarrow> reach sys R p'"
proof (induction p arbitrary: tr)
  case (Exec c f)
  then show ?case
    by (cases "os_exec sys c w") (auto dest: spec [of _ w])
next
  case (Log m p)
  then show ?case by (auto split: prod.splits)
qed auto

lemma reach_run_out:
  "reach sys R p \<Longrightarrow> run p sys w = (out, w1, tr) \<Longrightarrow> R out"
proof (induction p arbitrary: w tr)
  case (Exec c f)
  obtain r w2 where e: "os_exec sys c w = (r, w2)" by (cases "os_exec sys c w")
  obtain tr' where r: "run (f r) sys w2 = (out, w1, tr')"
    using Exec.prems(2) e by (auto split: prod.splits)
  from Exec.prems(1) have "reach sys R (f (fst (os_exec sys c w)))" by simp
  then have "reach sys R (f r)" by (simp add: e)
  then show ?case using r by (rule Exec.IH [OF rangeI])
next
  case (Sleep n p)
  obtain tr' where "run p sys (os_sleep sys n w) = (out, w1, tr')"
    using Sleep.prems(2) by (auto split: prod.splits)
  with Sleep.prems(1) show ?case by (auto intro: Sleep.IH)
next
  case (Log m p)
  obtain tr' where "run p sys w = (out, w1, tr')"
    using Log.prems(2) by (auto split: prod.splits)
  with Log.prems(1) show ?case by (auto intro: Log.IH)
qed auto

lemma reach_run:
  "reach sys R p \<Longrightarrow> R (fst (run p sys w))"
  by (cases "run p sys w") (auto dest: reach_run_out)

lemma sure_run:
  assumes "sure sys P p"
  shows "\<exists>a w1 tr. run p sys w = (Inr a, w1, tr) \<and> P a"
proof -
  obtain out w1 tr where r: "run p sys w = (out, w1, tr)" by (cases "run p sys w")
  from reach_run [OF assms [unfolded sure_def], of w] r show ?thesis
    by (cases out) auto
qed

lemma sure_step:
  "sure sys P p \<Longrightarrow> step p sys w = (p', w1, tr) \<Longrightarrow> sure sys P p'"
  unfolding sure_def by (rule reach_step)

lemma sure_rejection:
  "list_all2 (sure sys) Ps ps \<Longrightarrow> rejection ps = None"
proof (induction Ps ps rule: list_all2_induct)
  case Nil
  show ?case by simp
next
  case (Cons P Ps p ps)
  then show ?case by (cases p) (simp_all add: sure_def)
qed

lemma sure_fulfilled:
  "list_all2 (sure sys) Ps ps \<Longrightarrow> fulfilled ps = Some vs \<Longrightarrow> list_all2 (\<lambda>P v. P v) Ps vs"
proof (induction Ps ps arbitrary: vs rule: list_all2_induct)
  case Nil
  then show ?case by simp
next
  case (Cons P Ps p ps)
  then show ?case by (cases p) (auto simp: sure_def)
qed

lemma sure_in_turn:
  "list_all2 (sure sys) Ps ps \<Longrightarrow>
   \<exists>vs w1 tr. in_turn ps sys w = (Inr vs, w1, tr) \<and> list_all2 (\<lambda>P v. P v) Ps vs"
proof (induction Ps ps arbitrary: w rule: list_all2_induct)
  case Nil
  show ?case by simp
next
  case (Cons P Ps p ps)
  from sure_run [OF Cons.hyps(1), of w] obtain a w1 tr1 where
    r: "run p sys w = (Inr a, w1, tr1)" and a: "P a" by blast
  from Cons.IH [of w1] obtain vs w2 tr2 where
    t: "in_turn ps sys w1 = (Inr vs, w2, tr2)" and v: "list_all2 (\<lambda>P v. P v) Ps vs" by blast
  show ?case using r a t v by simp
qed

lemma sure_promise_all:
  "list_all2 (sure sys) Ps ps \<Longrightarrow>
   \<exists>vs w1 tr. promise_all sched ps sys w = (Inr vs, w1, tr) \<and> list_all2 (\<lambda>P v. P v) Ps vs"
proof (induction sched arbitrary: ps w)
  case Nil
  note rj = sure_rejection [OF Nil]
  show ?case
  proof (cases "fulfilled ps")
    case None
    with rj sure_in_turn [OF Nil, of w] show ?thesis
      by (subst promise_all.simps) simp
  next
    case (Some vs)
    with rj sure_fulfilled [OF Nil Some] show ?thesis
      by (subst promise_all.simps) simp
  qed
next
  case (Cons i sched)
  note rj = sure_rejection [OF Cons.prems]
  show ?case
  proof (cases "fulfilled ps")
    case (Some vs)
    with rj sure_fulfilled [OF Cons.prems Some] show ?thesis
      by (subst promise_all.simps) simp
  next
    case None
    then have ne: "ps \<noteq> []" by (cases ps) simp_all
    let ?j = "i mod length ps"
    have j: "?j < length ps" using ne by simp
    obtain p' w1 tr1 where s: "step (ps ! ?j) sys w = (p', w1, tr1)"
      by (cases "step (ps ! ?j) sys w")
    have "sure sys (Ps ! ?j) (ps ! ?j)"
      using Cons.prems j by (simp add: list_all2_conv_all_nth)
    then have "sure sys (Ps ! ?j) p'" using s by (rule sure_step)
    then have "list_all2 (sure sys) Ps (ps[?j := p'])"
      using Cons.prems j by (auto simp: list_all2_conv_all_nth nth_list_update)
    from Cons.IH [OF this, of w1] obtain vs w2 tr2 where
      "promise_all sched (ps[?j := p']) sys w1 = (Inr vs, w2, tr2)"
      "list_all2 (\<lambda>P v. P v) Ps vs" by blast
    with rj None s show ?thesis
      by (subst promise_all.simps) simp
  qed
qed

lemma sure_checkProcessWindows:
  "sure sys (\<lambda>info. name info = nm) (checkProcessWindows nm)"
  by (simp add: sure_def checkProcessWindows_def try_catch_def await_exec_def reach_settle
      not_running_def Let_def split: sum.splits)

lemma sure_try_patterns:
  "sure sys (\<lambda>info. name info = nm) (try_patterns nm cs)"
  by (induction cs)
    (simp_all add: try_patterns.simps sure_def bind_def try_catch_def await_exec_def
      reach_settle not_running_def Let_def split: sum.splits)

lemma sure_checkProcess:
  "sure sys (\<lambda>info. name info = nm) (checkProcess platform nm)"
proof (cases "platform = ''win32''")
  case True
  then show ?thesis by (simp add: checkProcess_def sure_checkProcessWindows)
next
  case False
  have "reach sys (\<lambda>r. case r of Inl e \<Rightarrow> False | Inr a \<Rightarrow> name a = nm)
      (try_patterns nm (patterns_of nm))"
    using sure_try_patterns [of sys nm "patterns_of nm"] by (simp add: sure_def)
  then have "sure sys (\<lambda>info. name info = nm) (checkProcessUnix nm)"
    unfolding sure_def checkProcessUnix_def try_catch_def reach_settle
    by (rule reach_mono) (auto split: sum.splits)
  with False show ?thesis by (simp add: checkProcess_def)
qed

lemma sure_kill_pids: "sure sys (\<lambda>_. True) (kill_pids signal pids killed)"
  by (induction pids arbitrary: killed)
    (simp_all add: sure_def bind_def try_catch_def await_exec_def reach_settle
      split: sum.splits)

lemma sure_killProcessWindows:
  assumes "only_exit sys (taskkill_cmd (if force then ''/F'' else []) nm) 128"
  shows "sure sys (\<lambda>_. True) (killProcessWindows nm force)"
  using assms
  by (auto simp: sure_def killProcessWindows_def try_catch_def await_exec_def reach_settle
      only_exit_def Let_def split: sum.splits)

lemma sure_Return: "P a \<Longrightarrow> sure sys P (Return a)"
  by (simp add: sure_def)

lemma sure_Log: "sure sys P p \<Longrightarrow> sure sys P (Log m p)"
  by (simp add: sure_def)

lemma sure_bind:
  assumes "sure sys Q p" and "\<And>a. Q a \<Longrightarrow> sure sys P (f a)"
  shows "sure sys P (bind p f)"
  unfolding sure_def bind_def reach_settle
  by (rule reach_mono [OF assms(1) [unfolded sure_def]])
    (use assms(2) in \<open>auto simp: sure_def split: sum.splits\<close>)

lemma sure_in_try:
  assumes "sure sys Q p" and "\<And>a. Q a \<Longrightarrow> sure sys (\<lambda>_. True) (k a)"
  shows "sure sys (\<lambda>_. True) (in_try killed p k)"
  unfolding sure_def in_try_def reach_settle
  by (rule reach_mono [OF assms(1) [unfolded sure_def]])
    (use assms(2) in \<open>auto simp: sure_def split: sum.splits\<close>)

lemma sure_broad:
  "sure sys (\<lambda>_. True)
     (try_catch (await_exec c (\<lambda>_. Log m (Return True))) (\<lambda>_. Return False))"
  by (simp add: sure_def try_catch_def await_exec_def reach_settle split: sum.splits)

lemma sure_enumeration:
  assumes "only_exit sys c 1" and "\<And>stdout. sure sys (\<lambda>_. True) (k stdout)"
  shows "sure sys (\<lambda>_. True) (in_try killed (await_exec c Return) k)"
  using assms
  by (auto simp: sure_def in_try_def await_exec_def reach_settle catch_clause_def
      only_exit_def split: sum.splits)

lemma sure_targeted:
  "sure sys (\<lambda>_. True)
     (if 0 < length pids then Log m (kill_pids signal pids killed) else Return killed)"
  by (simp add: sure_Log sure_kill_pids sure_Return del: kill_pids.simps)

lemma sure_killProcessUnix_forced:
  assumes "only_exit sys (pgrep_f nm) 1"
  shows "sure sys (\<lambda>_. True) (killProcessUnix platform nm True)"
  by (subst killProcessUnix_body)
    (intro sure_Log sure_bind [OF sure_broad] sure_enumeration [OF assms]
      sure_bind [OF sure_targeted], simp add: sure_Return)

lemma sure_settle_probe:
  assumes "only_exit sys (pgrep_f nm) 1"
  shows "sure sys (\<lambda>_. True)
     (in_try killed2 (Sleep 1000 (Return ()))
        (\<lambda>_. in_try killed2 (checkProcess platform nm)
           (\<lambda>stillRunning.
              if running stillRunning then Log (LogStill nm) (killProcessUnix platform nm True)
              else Return killed2)))"
proof -
  have s: "sure sys (\<lambda>_. True) (Sleep 1000 (Return ()))"
    by (simp add: sure_def)
  have k: "sure sys (\<lambda>_. True)
      (if running stillRunning then Log (LogStill nm) (killProcessUnix platform nm True)
       else Return killed2)" for stillRunning
    by (simp add: sure_Log sure_Return sure_killProcessUnix_forced [OF assms])
  show ?thesis
    by (intro sure_in_try [OF s] sure_in_try [OF sure_checkProcess] k)
qed

lemma sure_killProcessUnix:
  assumes "only_exit sys (pgrep_f nm) 1"
  shows "sure sys (\<lambda>_. True) (killProcessUnix platform nm force)"
proof (cases force)
  case True
  with sure_killProcessUnix_forced [OF assms] show ?thesis by simp
next
  case False
  show ?thesis
    by (subst killProcessUnix_body)
      (intro sure_Log sure_bind [OF sure_broad] sure_enumeration [OF assms]
        sure_bind [OF sure_targeted], simp add: False sure_settle_probe [OF assms])
qed

lemma sure_killProcess:
  assumes "no_fatal_failure sys platform force" and "nm \<in> set managed_names"
  shows "sure sys (\<lambda>_. True) (killProcess platform nm force)"
proof (cases "platform = ''win32''")
  case True
  with assms have "only_exit sys (taskkill_cmd (if force then ''/F'' else []) nm) 128"
    by (auto simp: no_fatal_failure_def list_all_iff)
  with True show ?thesis by (simp add: killProcess_def sure_killProcessWindows)
next
  case False
  with assms have "only_exit sys (pgrep_f nm) 1"
    by (auto simp: no_fatal_failure_def list_all_iff)
  with False show ?thesis by (simp add: killProcess_def sure_killProcessUnix)
qed

lemma list_all2_three:
  assumes "list_all2 (\<lambda>P v. P v) [P1, P2, P3] vs"
  shows "length vs = 3 \<and> P1 (vs ! 0) \<and> P2 (vs ! 1) \<and> P3 (vs ! 2)"
  using assms by (auto simp: list_all2_Cons1)

text \<open>
  C1, as the code has it. Under every schedule of the three concurrent probes and every
  command runner, \<^verbatim>\<open>checkAllProcesses\<close> returns one \<^verbatim>\<open>ProcessInfo\<close> for each of
  \<^verbatim>\<open>serve-d\<close>, \<^verbatim>\<open>dcd-server\<close> and \<^verbatim>\<open>dcd-client\<close>, carrying that name. Under every
  schedule and every force flag, \<^verbatim>\<open>killAllProcesses\<close> returns one result for each of the
  three when no termination can fail fatally, that is for every combination of successes
  and absences.
\<close>

theorem one_entry_per_managed_name:
  "(\<exists>i1 i2 i3 w1 tr.
      checkAllProcesses platform sched sys w =
        (Inr \<lparr>served = i1, dcdServer = i2, dcdClient = i3\<rparr>, w1, tr) \<and>
      name i1 = ''serve-d'' \<and> name i2 = ''dcd-server'' \<and> name i3 = ''dcd-client'')
   \<and> (no_fatal_failure sys platform force \<longrightarrow>
        (\<exists>b1 b2 b3 w1 tr.
           killAllProcesses platform force sched sys w =
             (Inr \<lparr>served = b1, dcdServer = b2, dcdClient = b3\<rparr>, w1, tr)))"
proof
  have "list_all2 (sure sys)
      [\<lambda>info. name info = ''serve-d'', \<lambda>info. name info = ''dcd-server'',
       \<lambda>info. name info = ''dcd-client'']
      [checkProcess platform ''serve-d'', checkProcess platform ''dcd-server'',
       checkProcess platform ''dcd-client'']"
    by (simp add: sure_checkProcess)
  from sure_promise_all [OF this, of sched w] obtain vs w1 tr where
    p: "promise_all sched
      [checkProcess platform ''serve-d'', checkProcess platform ''dcd-server'',
       checkProcess platform ''dcd-client''] sys w = (Inr vs, w1, tr)"
    and v: "list_all2 (\<lambda>P v. P v)
      [\<lambda>info. name info = ''serve-d'', \<lambda>info. name info = ''dcd-server'',
       \<lambda>info. name info = ''dcd-client''] vs"
    by blast
  from list_all2_three [OF v] p
  show "\<exists>i1 i2 i3 w1 tr.
      checkAllProcesses platform sched sys w =
        (Inr \<lparr>served = i1, dcdServer = i2, dcdClient = i3\<rparr>, w1, tr) \<and>
      name i1 = ''serve-d'' \<and> name i2 = ''dcd-server'' \<and> name i3 = ''dcd-client''"
    by (simp add: checkAllProcesses_def)
next
  show "no_fatal_failure sys platform force \<longrightarrow>
        (\<exists>b1 b2 b3 w1 tr.
           killAllProcesses platform force sched sys w =
             (Inr \<lparr>served = b1, dcdServer = b2, dcdClient = b3\<rparr>, w1, tr))"
  proof
    assume n: "no_fatal_failure sys platform force"
    have "list_all2 (sure sys) [\<lambda>_. True, \<lambda>_. True, \<lambda>_. True]
        [killProcess platform ''serve-d'' force, killProcess platform ''dcd-server'' force,
         killProcess platform ''dcd-client'' force]"
      using n by (simp add: sure_killProcess managed_names_def)
    from sure_promise_all [OF this, of sched w] obtain vs w1 tr where
      "promise_all sched
        [killProcess platform ''serve-d'' force, killProcess platform ''dcd-server'' force,
         killProcess platform ''dcd-client'' force] sys w = (Inr vs, w1, tr)"
      by blast
    then show "\<exists>b1 b2 b3 w1 tr.
           killAllProcesses platform force sched sys w =
             (Inr \<lparr>served = b1, dcdServer = b2, dcdClient = b3\<rparr>, w1, tr)"
      by (simp add: killAllProcesses_def)
  qed
qed

theorem one_entry_per_managed_name_witness:
  "no_fatal_failure all_succeed ''linux'' False
   \<and> (\<exists>w1 tr.
         killAllProcesses ''linux'' False [0, 1, 2, 2, 1, 0] all_succeed () =
           (Inr \<lparr>served = True, dcdServer = True, dcdClient = True\<rparr>, w1, tr))"
proof -
  have n: "no_fatal_failure all_succeed ''linux'' False"
    by (simp add: no_fatal_failure_def only_exit_def all_succeed_def managed_names_def)
  have v: "fst (killAllProcesses ''linux'' False [0, 1, 2, 2, 1, 0] all_succeed ()) =
      Inr \<lparr>served = True, dcdServer = True, dcdClient = True\<rparr>"
    by code_simp
  from one_entry_per_managed_name [of "''linux''" "[0, 1, 2, 2, 1, 0]" all_succeed "()" False,
      THEN conjunct2, rule_format, OF n]
  obtain b1 b2 b3 w1 tr where
    "killAllProcesses ''linux'' False [0, 1, 2, 2, 1, 0] all_succeed () =
       (Inr \<lparr>served = b1, dcdServer = b2, dcdClient = b3\<rparr>, w1, tr)"
    by blast
  with v n show ?thesis by auto
qed

text \<open>
  C1, as stated, lets a fatal failure for one name leave the results for the other names
  in place. \<^verbatim>\<open>killAllProcesses\<close> awaits \<^verbatim>\<open>Promise.all\<close>, which is rejected as soon as one
  of its computations is: here \<^verbatim>\<open>taskkill\<close> succeeds for \<^verbatim>\<open>serve-d\<close> and fails with exit
  code 1 for \<^verbatim>\<open>dcd-server\<close>, and the call is rejected with that failure; it returns no
  result for any name.
\<close>

theorem killAllProcesses_rejected_by_one_failure:
  "killAllProcesses ''win32'' False [0, 1, 2] scripted
     [Inr [], Inl (ExecError (Some 1)), Inr []] =
     (Inl (ExecError (Some 1)), [Inr []],
      [EvLog (LogStoppingAll False), EvExec (taskkill_cmd [] ''serve-d'') (Inr []),
       EvExec (taskkill_cmd [] ''dcd-server'') (Inl (ExecError (Some 1)))])"
  by (simp add: killAllProcesses_def promise_all.simps killProcess_def killProcessWindows_def
      try_catch_def await_exec_def scripted_exec)

end
